theory Spec2Isabelle
  imports Complex_Main "HOL-Library.Sublist" "HOL-Library.AList"
begin

section \<open>JSON values and the process environment\<close>

text \<open>
  Configuration documents, JSON-RPC envelopes and HTTP bodies are Python objects built
  from \<open>dict\<close>, \<open>list\<close>, \<open>str\<close>, numbers, booleans and \<open>None\<close>. A \<open>dict\<close> keeps
  insertion order and has no repeated key, so an object is an association list;
  \<open>d[k] = v\<close> is \<open>AList.update k v d\<close> and \<open>del d[k]\<close> is \<open>AList.delete k d\<close>.
  Python floats are read as real numbers. \<open>os.environ\<close> is a finite map from names to
  strings.
\<close>

datatype json =
    JNull
  | JBool bool
  | JInt int
  | JFloat real
  | JStr string
  | JArr "json list"
  | JObj "(string \<times> json) list"

type_synonym environ = "string \<rightharpoonup> string"

text \<open>\<open>d.get(key, default)\<close> on a dict.\<close>

definition dict_get :: "(string \<times> json) list \<Rightarrow> string \<Rightarrow> json \<Rightarrow> json" where
  "dict_get d key dflt = (case map_of d key of None \<Rightarrow> dflt | Some v \<Rightarrow> v)"

text \<open>The truth value Python gives a decoded JSON value in \<open>if v\<close> and \<open>not v\<close>.\<close>

fun truthy :: "json \<Rightarrow> bool" where
  "truthy JNull = False"
| "truthy (JBool b) = b"
| "truthy (JInt i) = (i \<noteq> 0)"
| "truthy (JFloat x) = (x \<noteq> 0)"
| "truthy (JStr s) = (s \<noteq> [])"
| "truthy (JArr xs) = (xs \<noteq> [])"
| "truthy (JObj kvs) = (kvs \<noteq> [])"

text \<open>
  \<open>key in v\<close> for a string \<open>key\<close>: a key of a dict, an element of a list, a part of a
  string; on any other value the test raises \<open>TypeError\<close>, the \<open>None\<close> here.
\<close>

fun py_in :: "string \<Rightarrow> json \<Rightarrow> bool option" where
  "py_in key (JObj kvs) = Some (key \<in> fst ` set kvs)"
| "py_in key (JArr xs) = Some (JStr key \<in> set xs)"
| "py_in key (JStr s) = Some (sublist key s)"
| "py_in key v = None"

text \<open>\<open>str(n)\<close> for an integer: its decimal digits.\<close>

definition digit_char :: "nat \<Rightarrow> char" where
  "digit_char d = ''0123456789'' ! d"

function str_nat :: "nat \<Rightarrow> string" where
  "str_nat n = (if n < 10 then [digit_char n] else str_nat (n div 10) @ [digit_char (n mod 10)])"
  by pat_completeness auto
termination
  by (relation "measure id") auto

declare str_nat.simps [simp del]

definition str_int :: "int \<Rightarrow> string" where
  "str_int i = (if i < 0 then CHR ''-'' # str_nat (nat (- i)) else str_nat (nat i))"

text \<open>\<open>int(x)\<close> for a float: truncation towards zero.\<close>

definition py_int :: "real \<Rightarrow> int" where
  "py_int x = (if 0 \<le> x then \<lfloor>x\<rfloor> else \<lceil>x\<rceil>)"

section \<open>config_handler.py: environment substitution\<close>

subsection \<open>The compiled pattern and \<open>str.replace\<close>\<close>

definition is_name_char :: "char \<Rightarrow> bool" where
  "is_name_char c \<longleftrightarrow>
     c \<in> set ''ABCDEFGHIJKLMNOPQRSTUVWXYZabcdefghijklmnopqrstuvwxyz0123456789_''"

text \<open>
  One attempt of the compiled pattern at the head of a string: a dollar sign, an opening
  brace, the longest non-empty run of name characters, a closing brace. The result is
  the captured name and the text after the match.
\<close>

fun match_token :: "string \<Rightarrow> (string \<times> string) option" where
  "match_token (a # b # rest) =
     (if a = CHR ''$'' \<and> b = CHR ''{'' then
        (let name = takeWhile is_name_char rest; after = dropWhile is_name_char rest
         in (case after of
               [] \<Rightarrow> None
             | c # more \<Rightarrow> if name \<noteq> [] \<and> c = CHR ''}'' then Some (name, more) else None))
      else None)"
| "match_token _ = None"

text \<open>The text \<open>f"${{{var_name}}}"\<close> that the loop hands to \<open>str.replace\<close>.\<close>

definition tok :: "string \<Rightarrow> string" where
  "tok var_name = ''${'' @ var_name @ ''}''"

definition valid_name :: "string \<Rightarrow> bool" where
  "valid_name n \<longleftrightarrow> n \<noteq> [] \<and> (\<forall>c \<in> set n. is_name_char c)"

lemma match_token_decomp:
  assumes "match_token s = Some (n, r)"
  shows "s = tok n @ r \<and> valid_name n"
proof -
  from assms obtain rest where s: "s = CHR ''$'' # CHR ''{'' # rest"
    by (cases s rule: match_token.cases) (auto split: if_splits)
  let ?name = "takeWhile is_name_char rest"
  let ?after = "dropWhile is_name_char rest"
  from assms s obtain more
    where a: "?after = CHR ''}'' # more" "?name \<noteq> []" "n = ?name" "r = more"
    by (auto simp: Let_def split: list.splits if_splits)
  have "rest = ?name @ ?after" by simp
  with a have "rest = n @ CHR ''}'' # r" by simp
  moreover have "\<forall>c \<in> set n. is_name_char c"
    using a(3) by (auto dest: set_takeWhileD)
  ultimately show ?thesis using s a by (simp add: tok_def valid_name_def)
qed

lemma match_token_shorter:
  "match_token s = Some (n, r) \<Longrightarrow> length r < length s"
  by (drule match_token_decomp) (simp add: tok_def)

text \<open>
  \<open>pattern.findall(value)\<close>: the captured names of the non-overlapping matches, scanning
  from the left; after a match the scan resumes behind it, otherwise one character on.
\<close>

function findall :: "string \<Rightarrow> string list" where
  "findall [] = []"
| "findall (c # cs) =
     (case match_token (c # cs) of
        Some (name, rest) \<Rightarrow> name # findall rest
      | None \<Rightarrow> findall cs)"
  by pat_completeness auto
termination
  by (relation "measure length") (auto dest: match_token_shorter)

text \<open>
  \<open>s.replace(old, new)\<close>: every non-overlapping occurrence of \<open>old\<close>, from the left. With
  an empty \<open>old\<close> Python puts \<open>new\<close> before every character and at the end.
\<close>

function str_replace :: "string \<Rightarrow> string \<Rightarrow> string \<Rightarrow> string" where
  "str_replace s old new =
     (if old = [] then new @ concat (map (\<lambda>c. c # new) s)
      else if s = [] then []
      else if prefix old s then new @ str_replace (drop (length old) s) old new
      else hd s # str_replace (tl s) old new)"
  by pat_completeness auto
termination
  by (relation "measure (\<lambda>(s, old, new). length s)") auto

declare str_replace.simps [simp del]

subsection \<open>\<open>ConfigHandler.substitute_env_vars\<close>\<close>

datatype config_error =
    NoConfigLoaded
  | MissingEnvVars "string set"

record config_handler =
  config_path :: string
  schema_path :: string
  config :: "json option"
  schema :: "json option"

text \<open>
  The body of the \<open>for var_name in matches\<close> loop of \<open>process_value\<close>, with its two
  variables: the running \<open>result\<close> and the names added to \<open>missing_vars\<close>.
\<close>

fun subst_loop :: "environ \<Rightarrow> string list \<Rightarrow> string \<Rightarrow> string list \<Rightarrow> string \<times> string list" where
  "subst_loop env [] result missing = (result, missing)"
| "subst_loop env (var_name # matches) result missing =
     (case env var_name of
        None \<Rightarrow> subst_loop env matches result (missing @ [var_name])
      | Some env_value \<Rightarrow>
          subst_loop env matches (str_replace result (tok var_name) env_value) missing)"

definition process_str :: "environ \<Rightarrow> string \<Rightarrow> string \<times> string list" where
  "process_str env value = subst_loop env (findall value) value []"

text \<open>
  \<open>process_value\<close> returns the processed value; the second component lists the names
  the call added to the enclosing \<open>missing_vars\<close> set.
\<close>

fun process_value :: "environ \<Rightarrow> json \<Rightarrow> json \<times> string list" where
  "process_value env (JStr s) = (JStr (fst (process_str env s)), snd (process_str env s))"
| "process_value env (JObj kvs) =
     (JObj (map (\<lambda>(k, v). (k, fst (process_value env v))) kvs),
      concat (map (\<lambda>(k, v). snd (process_value env v)) kvs))"
| "process_value env (JArr items) =
     (JArr (map (\<lambda>item. fst (process_value env item)) items),
      concat (map (\<lambda>item. snd (process_value env item)) items))"
| "process_value env JNull = (JNull, [])"
| "process_value env (JBool b) = (JBool b, [])"
| "process_value env (JInt i) = (JInt i, [])"
| "process_value env (JFloat x) = (JFloat x, [])"

text \<open>
  The method takes the handler and the optional argument, and returns the value or the
  raised \<open>ConfigError\<close> together with the handler afterwards. \<open>json.loads(json.dumps(config))\<close>
  rebuilds the same document from fresh objects.
\<close>

definition deep_copy :: "json \<Rightarrow> json" where
  "deep_copy c = c"

definition substitute_env_vars ::
  "environ \<Rightarrow> config_handler \<Rightarrow> json option \<Rightarrow> (config_error + json) \<times> config_handler" where
  "substitute_env_vars env self arg =
     (let config1 = (case arg of None \<Rightarrow> config self | Some c \<Rightarrow> Some c)
      in case config1 of
           None \<Rightarrow> (Inl NoConfigLoaded, self)
         | Some c \<Rightarrow>
             (let processed_config = deep_copy c;
                  (processed, missing_vars) = process_value env processed_config
              in if set missing_vars \<noteq> {} then (Inl (MissingEnvVars (set missing_vars)), self)
                 else (Inr processed, self)))"

subsection \<open>The substitution the specification describes\<close>

text \<open>
  The specification's reading of step 4 of the resolver, written down separately from the
  code: a string is cut into literal characters and \<open>${NAME}\<close> tokens, and every token
  whose name is set is replaced by its value, all at once. The names a document
  references are the tokens of its string values at any depth; the unresolved ones are
  those the environment does not set.
\<close>

datatype piece = Lit char | Var string

function scan :: "string \<Rightarrow> piece list" where
  "scan [] = []"
| "scan (c # cs) =
     (case match_token (c # cs) of
        Some (name, rest) \<Rightarrow> Var name # scan rest
      | None \<Rightarrow> Lit c # scan cs)"
  by pat_completeness auto
termination
  by (relation "measure length") (auto dest: match_token_shorter)

fun render :: "environ \<Rightarrow> piece \<Rightarrow> string" where
  "render env (Lit c) = [c]"
| "render env (Var name) = (case env name of Some v \<Rightarrow> v | None \<Rightarrow> tok name)"

definition spec_subst_str :: "environ \<Rightarrow> string \<Rightarrow> string" where
  "spec_subst_str env s = concat (map (render env) (scan s))"

fun spec_subst_value :: "environ \<Rightarrow> json \<Rightarrow> json" where
  "spec_subst_value env (JStr s) = JStr (spec_subst_str env s)"
| "spec_subst_value env (JObj kvs) = JObj (map (\<lambda>(k, v). (k, spec_subst_value env v)) kvs)"
| "spec_subst_value env (JArr items) = JArr (map (spec_subst_value env) items)"
| "spec_subst_value env v = v"

fun str_values :: "json \<Rightarrow> string list" where
  "str_values (JStr s) = [s]"
| "str_values (JObj kvs) = concat (map (\<lambda>(k, v). str_values v) kvs)"
| "str_values (JArr items) = concat (map str_values items)"
| "str_values v = []"

definition referenced :: "json \<Rightarrow> string list" where
  "referenced cfg = concat (map findall (str_values cfg))"

definition unresolved :: "environ \<Rightarrow> json \<Rightarrow> string set" where
  "unresolved env cfg = set (filter (\<lambda>n. env n = None) (referenced cfg))"

text \<open>
  Two conditions under which successive \<open>str.replace\<close> calls and the replacement of
  tokens all at once agree: every dollar sign of the document begins a token, and no
  value of a referenced variable contains a dollar sign.
\<close>

definition plain :: "string \<Rightarrow> bool" where
  "plain v \<longleftrightarrow> CHR ''$'' \<notin> set v"

definition dollars_begin_tokens :: "string \<Rightarrow> bool" where
  "dollars_begin_tokens s \<longleftrightarrow> Lit CHR ''$'' \<notin> set (scan s)"

fun var_names :: "piece list \<Rightarrow> string list" where
  "var_names [] = []"
| "var_names (Var n # ps) = n # var_names ps"
| "var_names (Lit c # ps) = var_names ps"

definition pieces_ok :: "environ \<Rightarrow> piece list \<Rightarrow> bool" where
  "pieces_ok env ps \<longleftrightarrow>
     Lit CHR ''$'' \<notin> set ps \<and>
     (\<forall>n. Var n \<in> set ps \<longrightarrow> valid_name n \<and> (\<forall>w. env n = Some w \<longrightarrow> plain w))"

definition env_plain :: "environ \<Rightarrow> string \<Rightarrow> bool" where
  "env_plain env s \<longleftrightarrow>
     (\<forall>n \<in> set (findall s). case env n of None \<Rightarrow> False | Some w \<Rightarrow> plain w)"

definition tokens_isolated :: "json \<Rightarrow> bool" where
  "tokens_isolated cfg \<longleftrightarrow> (\<forall>s \<in> set (str_values cfg). dollars_begin_tokens s)"

definition values_plain :: "environ \<Rightarrow> json \<Rightarrow> bool" where
  "values_plain env cfg \<longleftrightarrow>
     (\<forall>n \<in> set (referenced cfg). case env n of None \<Rightarrow> False | Some w \<Rightarrow> plain w)"

definition env_complete :: "environ \<Rightarrow> json \<Rightarrow> bool" where
  "env_complete env cfg \<longleftrightarrow> (\<forall>n \<in> set (referenced cfg). env n \<noteq> None)"

text \<open>A handler as \<open>__init__\<close> leaves it, for the closed examples.\<close>

definition handler0 :: config_handler where
  "handler0 = \<lparr>config_path = ''/app/config.json'', schema_path = ''config.schema.json'',
                config = None, schema = None\<rparr>"

text \<open>Concrete documents and environments: the ones of \<open>test_config_handler.py\<close>, and
  an environment whose value for \<open>A\<close> is itself the text of a token.\<close>

definition env_test :: environ where
  "env_test = [''TEST_VALUE'' \<mapsto> ''test-value'', ''TEST_API_KEY'' \<mapsto> ''test-api-key'']"

definition cfg_test :: json where
  "cfg_test = JObj [(''mcpServers'', JObj [(''test'', JObj [
      (''command'', JStr ''test''),
      (''args'', JArr [JStr ''--value=${TEST_VALUE}'']),
      (''env'', JObj [(''API_KEY'', JStr ''${TEST_API_KEY}'')])])])]"

definition cfg_test_out :: json where
  "cfg_test_out = JObj [(''mcpServers'', JObj [(''test'', JObj [
      (''command'', JStr ''test''),
      (''args'', JArr [JStr ''--value=test-value'']),
      (''env'', JObj [(''API_KEY'', JStr ''test-api-key'')])])])]"


definition env_ab :: environ where
  "env_ab = [''A'' \<mapsto> ''${B}'', ''B'' \<mapsto> ''x'']"

section \<open>mcp_proxy.py: the upstream registry, its drivers and the HTTP front end\<close>

subsection \<open>Exceptions, child processes and the outside world\<close>

datatype py_error =
    ValueError string
  | AttributeError
  | TypeError
  | KeyError string
  | BrokenPipeError
  | JSONDecodeError
  | OSError
  | URLError
  | NoResponse
  | McpServerError json

text \<open>
  What a call does: it returns a value, raises, or waits on a pipe for a line that
  never comes.
\<close>

datatype 'a outcome = Returns 'a | Raises py_error | Blocks

text \<open>
  A child started by \<open>subprocess.Popen\<close> with pipes: its pid, the environment it was
  given, whether \<open>poll()\<close> reports an exit code, the lines written to its stdin and the
  lines it has put on its stdout that nobody has read yet.
\<close>

record process =
  pid :: nat
  penv :: environ
  exited :: bool
  stdin_log :: "string list"
  stdout_buf :: "string list"

text \<open>
  What the program does not decide itself: the \<open>json\<close> module, \<open>str()\<close> of a value that
  is not a string, \<open>str(e)\<close> of an exception raised by the interpreter, what a child
  program prints for a line it reads, whether \<open>Popen\<close> succeeds (and with which pid), and
  what \<open>urlopen\<close> returns.
\<close>

record world =
  dumps :: "json \<Rightarrow> string"
  loads :: "string \<Rightarrow> json option"
  fmt :: "json \<Rightarrow> string"
  exc_text :: "py_error \<Rightarrow> string"
  program :: "nat \<Rightarrow> string \<Rightarrow> string list"
  popen :: "string list \<Rightarrow> environ \<Rightarrow> nat option"
  urlopen :: "json \<Rightarrow> (string \<times> json) list \<Rightarrow> string \<Rightarrow> string option"

definition newline :: string where
  "newline = [CHR 0x0A]"

text \<open>
  \<open>process.stdin.write(text); process.stdin.flush()\<close>: the pipe of a child that has
  exited is broken; a living child reads the line and prints its answer.
\<close>

definition stdin_write :: "(string \<Rightarrow> string list) \<Rightarrow> process \<Rightarrow> string \<Rightarrow> unit outcome \<times> process" where
  "stdin_write prog p text =
     (if exited p then (Raises BrokenPipeError, p)
      else (Returns (), p\<lparr>stdin_log := stdin_log p @ [text],
                            stdout_buf := stdout_buf p @ prog text\<rparr>))"

text \<open>
  \<open>process.stdout.readline()\<close>: the next line if there is one; the empty string at the
  end of the stream of a child that has exited; otherwise the call waits.
\<close>

definition stdout_readline :: "process \<Rightarrow> string outcome \<times> process" where
  "stdout_readline p =
     (case stdout_buf p of
        line # rest \<Rightarrow> (Returns line, p\<lparr>stdout_buf := rest\<rparr>)
      | [] \<Rightarrow> if exited p then (Returns [], p) else (Blocks, p))"

definition is_space :: "char \<Rightarrow> bool" where
  "is_space c \<longleftrightarrow> c \<in> set [CHR 0x09, CHR 0x0A, CHR 0x0B, CHR 0x0C, CHR 0x0D,
                              CHR 0x1C, CHR 0x1D, CHR 0x1E, CHR 0x1F, CHR '' '']"

definition py_strip :: "string \<Rightarrow> string" where
  "py_strip s = rev (dropWhile is_space (rev (dropWhile is_space s)))"

text \<open>
  A value inside an f-string: a string stands for itself, an integer for its digits,
  \<open>None\<close> and the booleans for their names; the text of any other value is \<open>fmt\<close>'s.
\<close>

definition py_format :: "(json \<Rightarrow> string) \<Rightarrow> json \<Rightarrow> string" where
  "py_format other_text v =
     (case v of
        JStr s \<Rightarrow> s
      | JInt i \<Rightarrow> str_int i
      | JBool b \<Rightarrow> (if b then ''True'' else ''False'')
      | JNull \<Rightarrow> ''None''
      | _ \<Rightarrow> other_text v)"

subsection \<open>The JSON-RPC envelopes\<close>

definition call_request :: "world \<Rightarrow> real \<Rightarrow> string \<Rightarrow> json \<Rightarrow> json \<Rightarrow> json" where
  "call_request w now server_name tool_name arguments =
     JObj [(''jsonrpc'', JStr ''2.0''),
           (''id'', JStr (server_name @ ''_'' @ py_format (fmt w) tool_name @ ''_''
                          @ str_int (py_int (now * 1000)))),
           (''method'', JStr ''tools/call''),
           (''params'', JObj [(''name'', tool_name), (''arguments'', arguments)])]"

definition list_request :: "real \<Rightarrow> string \<Rightarrow> json" where
  "list_request now server_name =
     JObj [(''jsonrpc'', JStr ''2.0''),
           (''id'', JStr (server_name @ ''_list_tools_'' @ str_int (py_int (now * 1000)))),
           (''method'', JStr ''tools/list'')]"

text \<open>
  \<open>if "error" in response: raise ...\<close> followed by \<open>response.get("result", {})\<close>. A reply
  that is not an object makes \<open>in\<close>, the subscript or \<open>.get\<close> raise.
\<close>

definition reply_result :: "json \<Rightarrow> py_error + json" where
  "reply_result response =
     (case py_in ''error'' response of
        None \<Rightarrow> Inl TypeError
      | Some True \<Rightarrow>
          (case response of
             JObj kvs \<Rightarrow> Inl (McpServerError (dict_get kvs ''error'' JNull))
           | _ \<Rightarrow> Inl TypeError)
      | Some False \<Rightarrow>
          (case response of
             JObj kvs \<Rightarrow> Inr (dict_get kvs ''result'' (JObj []))
           | _ \<Rightarrow> Inl AttributeError))"

subsection \<open>The command driver\<close>

definition call_command_tool ::
  "world \<Rightarrow> real \<Rightarrow> string \<Rightarrow> json \<Rightarrow> json \<Rightarrow> process \<Rightarrow> json outcome \<times> process" where
  "call_command_tool w now server_name tool_name arguments p =
     (let request = call_request w now server_name tool_name arguments;
          request_json = dumps w request @ newline;
          (written, p1) = stdin_write (program w (pid p)) p request_json
      in case written of
           Raises e \<Rightarrow> (Raises e, p1)
         | Blocks \<Rightarrow> (Blocks, p1)
         | Returns u \<Rightarrow>
             (let (got, p2) = stdout_readline p1
              in case got of
                   Raises e \<Rightarrow> (Raises e, p2)
                 | Blocks \<Rightarrow> (Blocks, p2)
                 | Returns response_line \<Rightarrow>
                     if response_line = [] then (Raises NoResponse, p2)
                     else (case loads w (py_strip response_line) of
                             None \<Rightarrow> (Raises JSONDecodeError, p2)
                           | Some response \<Rightarrow>
                               (case reply_result response of
                                  Inl e \<Rightarrow> (Raises e, p2)
                                | Inr result \<Rightarrow> (Returns result, p2)))))"

text \<open>
  \<open>response.get("result", {}).get("tools", [])\<close>; the \<open>except Exception\<close> clause of
  \<open>_list_command_tools\<close> turns every exception into the empty list.
\<close>

definition reply_tools :: "json \<Rightarrow> py_error + json" where
  "reply_tools response =
     (case reply_result response of
        Inl e \<Rightarrow> Inl e
      | Inr (JObj kvs) \<Rightarrow> Inr (dict_get kvs ''tools'' (JArr []))
      | Inr other \<Rightarrow> Inl AttributeError)"

definition list_command_tools :: "world \<Rightarrow> real \<Rightarrow> string \<Rightarrow> process \<Rightarrow> json outcome \<times> process" where
  "list_command_tools w now server_name p =
     (let request = list_request now server_name;
          request_json = dumps w request @ newline;
          (written, p1) = stdin_write (program w (pid p)) p request_json
      in case written of
           Raises e \<Rightarrow> (Returns (JArr []), p1)
         | Blocks \<Rightarrow> (Blocks, p1)
         | Returns u \<Rightarrow>
             (let (got, p2) = stdout_readline p1
              in case got of
                   Raises e \<Rightarrow> (Returns (JArr []), p2)
                 | Blocks \<Rightarrow> (Blocks, p2)
                 | Returns response_line \<Rightarrow>
                     if response_line = [] then (Returns (JArr []), p2)
                     else (case loads w (py_strip response_line) of
                             None \<Rightarrow> (Returns (JArr []), p2)
                           | Some response \<Rightarrow>
                               (case reply_tools response of
                                  Inl e \<Rightarrow> (Returns (JArr []), p2)
                                | Inr tools \<Rightarrow> (Returns tools, p2)))))"

subsection \<open>The remote drivers\<close>

text \<open>
  \<open>_call_sse_tool\<close> and \<open>_call_http_tool\<close> have the same body: copy the headers, set the
  content type, POST the envelope, parse the body. Every failure of \<open>Request\<close>,
  \<open>urlopen\<close>, \<open>read\<close> and \<open>decode\<close> is the \<open>None\<close> of \<open>urlopen\<close>.
\<close>

definition remote_exchange :: "world \<Rightarrow> json \<Rightarrow> json \<Rightarrow> json \<Rightarrow> py_error + json" where
  "remote_exchange w url headers request =
     (case headers of
        JObj hs \<Rightarrow>
          (case urlopen w url (AList.update ''Content-Type'' (JStr ''application/json'') hs)
                  (dumps w request) of
             None \<Rightarrow> Inl URLError
           | Some response_data \<Rightarrow>
               (case loads w response_data of
                  None \<Rightarrow> Inl JSONDecodeError
                | Some response_json \<Rightarrow> Inr response_json))
      | _ \<Rightarrow> Inl AttributeError)"

definition call_remote_tool :: "world \<Rightarrow> real \<Rightarrow> string \<Rightarrow> json \<Rightarrow> json \<Rightarrow> json \<Rightarrow> json \<Rightarrow> json outcome" where
  "call_remote_tool w now server_name url headers tool_name arguments =
     (case remote_exchange w url headers (call_request w now server_name tool_name arguments) of
        Inl e \<Rightarrow> Raises e
      | Inr response_json \<Rightarrow>
          (case reply_result response_json of Inl e \<Rightarrow> Raises e | Inr result \<Rightarrow> Returns result))"

definition list_remote_tools :: "world \<Rightarrow> real \<Rightarrow> string \<Rightarrow> json \<Rightarrow> json \<Rightarrow> json outcome" where
  "list_remote_tools w now server_name url headers =
     (case remote_exchange w url headers (list_request now server_name) of
        Inl e \<Rightarrow> Returns (JArr [])
      | Inr response_json \<Rightarrow>
          (case reply_tools response_json of Inl e \<Rightarrow> Returns (JArr []) | Inr tools \<Rightarrow> Returns tools))"

subsection \<open>\<open>MCPServerManager\<close>\<close>

text \<open>
  One entry of \<open>self.servers\<close>. The \<open>Popen\<close> object of a command server is kept inside
  the entry; \<open>self.processes\<close> holds the same object under the same name and is recorded
  by pid. The \<open>log\<close> holds the warnings of the logger.
\<close>

record server_info =
  stype :: string
  sconfig :: json
  sprocess :: "process option"
  surl :: json
  sheaders :: json
  start_time :: real

record manager =
  mconfig :: json
  servers :: "(string \<times> server_info) list"
  processes :: "(string \<times> nat) list"
  log :: "string list"

text \<open>
  The loop of \<open>_start_command_server\<close> over \<open>env_vars.items()\<close>: \<open>env\<close> starts as a copy
  of \<open>os.environ\<close>, names are looked up in \<open>os.environ\<close> itself.
\<close>

definition is_placeholder :: "string \<Rightarrow> bool" where
  "is_placeholder v \<longleftrightarrow> prefix ''${'' v \<and> suffix ''}'' v"

definition placeholder_name :: "string \<Rightarrow> string" where
  "placeholder_name v = butlast (drop 2 v)"

fun prepare_env ::
  "world \<Rightarrow> environ \<Rightarrow> (string \<times> json) list \<Rightarrow> environ \<Rightarrow> string list \<Rightarrow> environ \<times> string list" where
  "prepare_env w os_environ [] env warnings = (env, warnings)"
| "prepare_env w os_environ ((key, JStr v) # rest) env warnings =
     (if is_placeholder v then
        (let env_var_name = placeholder_name v
         in case os_environ env_var_name of
              Some x \<Rightarrow> prepare_env w os_environ rest (env(key \<mapsto> x)) warnings
            | None \<Rightarrow>
                prepare_env w os_environ rest (env(key \<mapsto> v))
                  (warnings @ [''Environment variable not found: '' @ env_var_name]))
      else prepare_env w os_environ rest (env(key \<mapsto> v)) warnings)"
| "prepare_env w os_environ ((key, other) # rest) env warnings =
     prepare_env w os_environ rest (env(key \<mapsto> fmt w other)) warnings"

text \<open>\<open>cmd = [command] + args\<close> and \<open>' '.join(cmd)\<close>: a command line of strings, or \<open>TypeError\<close>.\<close>

fun str_items :: "json list \<Rightarrow> string list option" where
  "str_items [] = Some []"
| "str_items (JStr s # xs) = map_option ((#) s) (str_items xs)"
| "str_items (other # xs) = None"

definition command_line :: "json \<Rightarrow> json \<Rightarrow> string list option" where
  "command_line command args = (case args of JArr xs \<Rightarrow> str_items (command # xs) | _ \<Rightarrow> None)"

definition new_process :: "nat \<Rightarrow> environ \<Rightarrow> process" where
  "new_process n env = \<lparr>pid = n, penv = env, exited = False, stdin_log = [], stdout_buf = []\<rparr>"

definition start_command_server ::
  "world \<Rightarrow> environ \<Rightarrow> real \<Rightarrow> manager \<Rightarrow> string \<Rightarrow> json \<Rightarrow> py_error option \<times> manager" where
  "start_command_server w os_environ now m server_name server_config =
     (case server_config of
        JObj kvs \<Rightarrow>
          (let command = dict_get kvs ''command'' JNull;
               args = dict_get kvs ''args'' (JArr []);
               env_vars = dict_get kvs ''env'' (JObj [])
           in if \<not> truthy command
              then (Some (ValueError (''No command specified for server: '' @ server_name)), m)
              else (case env_vars of
                      JObj items \<Rightarrow>
                        (let (env, warnings) = prepare_env w os_environ items os_environ [];
                             m1 = m\<lparr>log := log m @ warnings\<rparr>
                         in case command_line command args of
                              None \<Rightarrow> (Some TypeError, m1)
                            | Some cmd \<Rightarrow>
                                (case popen w cmd env of
                                   None \<Rightarrow> (Some OSError, m1)
                                 | Some n \<Rightarrow>
                                     (None,
                                      m1\<lparr>servers := AList.update server_name
                                             \<lparr>stype = ''command'', sconfig = server_config,
                                              sprocess = Some (new_process n env), surl = JNull,
                                              sheaders = JNull, start_time = now\<rparr> (servers m1),
                                          processes := AList.update server_name n (processes m1)\<rparr>)))
                    | _ \<Rightarrow> (Some AttributeError, m)))
      | _ \<Rightarrow> (Some AttributeError, m))"

text \<open>\<open>_start_sse_server\<close> and \<open>_start_http_server\<close> register the entry under their tag.\<close>

definition start_remote_server ::
  "string \<Rightarrow> string \<Rightarrow> real \<Rightarrow> manager \<Rightarrow> string \<Rightarrow> json \<Rightarrow> py_error option \<times> manager" where
  "start_remote_server tag label now m server_name server_config =
     (case server_config of
        JObj kvs \<Rightarrow>
          (let url = dict_get kvs ''url'' JNull;
               headers = dict_get kvs ''headers'' (JObj [])
           in if \<not> truthy url
              then (Some (ValueError (''No URL specified for '' @ label @ '' server: '' @ server_name)), m)
              else (None,
                    m\<lparr>servers := AList.update server_name
                          \<lparr>stype = tag, sconfig = server_config, sprocess = None, surl = url,
                           sheaders = headers, start_time = now\<rparr> (servers m)\<rparr>))
      | _ \<Rightarrow> (Some AttributeError, m))"

definition start_server ::
  "world \<Rightarrow> environ \<Rightarrow> real \<Rightarrow> manager \<Rightarrow> string \<Rightarrow> json \<Rightarrow> py_error option \<times> manager" where
  "start_server w os_environ now m server_name server_config =
     (case server_config of
        JObj kvs \<Rightarrow>
          (let server_type = dict_get kvs ''type'' (JStr ''command'')
           in if server_type = JStr ''command''
              then start_command_server w os_environ now m server_name server_config
              else if server_type = JStr ''sse''
              then start_remote_server ''sse'' ''SSE'' now m server_name server_config
              else if server_type = JStr ''streamable_http''
              then start_remote_server ''streamable_http'' ''HTTP'' now m server_name server_config
              else (None, m))
      | _ \<Rightarrow> (Some AttributeError, m))"



definition call_tool ::
  "world \<Rightarrow> real \<Rightarrow> manager \<Rightarrow> string \<Rightarrow> json \<Rightarrow> json \<Rightarrow> json outcome \<times> manager" where
  "call_tool w now m server_name tool_name arguments =
     (case map_of (servers m) server_name of
        None \<Rightarrow> (Raises (ValueError (''Server not found: '' @ server_name)), m)
      | Some server_info \<Rightarrow>
          if stype server_info = ''command'' then
            (case sprocess server_info of
               None \<Rightarrow> (Raises (KeyError ''process''), m)
             | Some p \<Rightarrow>
                 (let (r, p') = call_command_tool w now server_name tool_name arguments p
                  in (r, m\<lparr>servers := AList.update server_name
                                (server_info\<lparr>sprocess := Some p'\<rparr>) (servers m)\<rparr>)))
          else if stype server_info = ''sse'' \<or> stype server_info = ''streamable_http'' then
            (call_remote_tool w now server_name (surl server_info) (sheaders server_info)
               tool_name arguments, m)
          else (Raises (ValueError (''Unknown server type: '' @ stype server_info)), m))"

definition list_tools :: "world \<Rightarrow> real \<Rightarrow> manager \<Rightarrow> string \<Rightarrow> json outcome \<times> manager" where
  "list_tools w now m server_name =
     (case map_of (servers m) server_name of
        None \<Rightarrow> (Raises (ValueError (''Server not found: '' @ server_name)), m)
      | Some server_info \<Rightarrow>
          if stype server_info = ''command'' then
            (case sprocess server_info of
               None \<Rightarrow> (Raises (KeyError ''process''), m)
             | Some p \<Rightarrow>
                 (let (r, p') = list_command_tools w now server_name p
                  in (r, m\<lparr>servers := AList.update server_name
                                (server_info\<lparr>sprocess := Some p'\<rparr>) (servers m)\<rparr>)))
          else if stype server_info = ''sse'' \<or> stype server_info = ''streamable_http'' then
            (list_remote_tools w now server_name (surl server_info) (sheaders server_info), m)
          else (Raises (ValueError (''Unknown server type: '' @ stype server_info)), m))"

text \<open>
  \<open>get_server_status\<close>: one object per entry of \<open>self.servers\<close>, in order. For a command
  server \<open>process and process.poll() is None\<close> is the value of \<open>process\<close> itself when
  there is none.
\<close>

definition server_status :: "real \<Rightarrow> server_info \<Rightarrow> json" where
  "server_status now server_info =
     (let is_running =
            (if stype server_info = ''command''
             then (case sprocess server_info of None \<Rightarrow> JNull | Some p \<Rightarrow> JBool (\<not> exited p))
             else JBool True);
          pid_value =
            (if stype server_info = ''command''
             then (case sprocess server_info of None \<Rightarrow> JNull | Some p \<Rightarrow> JInt (int (pid p)))
             else JNull);
          uptime = now - start_time server_info
      in JObj [(''type'', JStr (stype server_info)),
               (''running'', is_running),
               (''uptime'', JFloat uptime),
               (''pid'', pid_value),
               (''config'', sconfig server_info)])"

definition get_server_status :: "real \<Rightarrow> manager \<Rightarrow> (string \<times> json) list" where
  "get_server_status now m = map (\<lambda>(server_name, server_info). (server_name, server_status now server_info)) (servers m)"

subsection \<open>\<open>MCPProxyHandler\<close>\<close>

text \<open>
  A response is the status code and the object handed to \<open>json.dumps(data, indent=2)\<close>.
\<close>

type_synonym http_response = "int \<times> json"

definition send_error_response :: "int \<Rightarrow> string \<Rightarrow> http_response" where
  "send_error_response status_code message =
     (status_code, JObj [(''error'', JObj [(''code'', JInt status_code), (''message'', JStr message)])])"

definition error_text :: "world \<Rightarrow> py_error \<Rightarrow> string" where
  "error_text w e =
     (case e of
        ValueError msg \<Rightarrow> msg
      | NoResponse \<Rightarrow> ''No response from MCP server''
      | McpServerError j \<Rightarrow> ''MCP server error: '' @ py_format (fmt w) j
      | _ \<Rightarrow> exc_text w e)"

definition path_server_name :: "string \<Rightarrow> string" where
  "path_server_name path = takeWhile (\<lambda>c. c \<noteq> CHR ''/'') (tl path)"

definition do_POST :: "world \<Rightarrow> real \<Rightarrow> manager \<Rightarrow> string \<Rightarrow> string \<Rightarrow> http_response outcome \<times> manager" where
  "do_POST w now m path request_body =
     (if prefix ''/'' path \<and> length path > 1 then
        (let server_name = path_server_name path
         in if server_name \<in> fst ` set (servers m) then
              (case loads w request_body of
                 None \<Rightarrow> (Returns (send_error_response 400 ''Invalid JSON in request body''), m)
               | Some (JObj request_data) \<Rightarrow>
                   (let tool_name = dict_get request_data ''tool'' JNull;
                        arguments = dict_get request_data ''arguments'' (JObj [])
                    in if \<not> truthy tool_name
                       then (Returns (send_error_response 400 ''Missing 'tool' parameter''), m)
                       else (case call_tool w now m server_name tool_name arguments of
                               (Returns result, m') \<Rightarrow>
                                 (Returns (200, JObj [(''server'', JStr server_name),
                                                      (''tool'', tool_name),
                                                      (''result'', result)]), m')
                             | (Raises JSONDecodeError, m') \<Rightarrow>
                                 (Returns (send_error_response 400 ''Invalid JSON in request body''), m')
                             | (Raises e, m') \<Rightarrow>
                                 (Returns (send_error_response 500
                                    (''Error calling tool: '' @ error_text w e)), m')
                             | (Blocks, m') \<Rightarrow> (Blocks, m')))
               | Some other \<Rightarrow>
                   (Returns (send_error_response 500
                      (''Error calling tool: '' @ error_text w AttributeError)), m))
            else (Returns (send_error_response 404 (''Server not found: '' @ server_name)), m))
      else (Returns (send_error_response 404 ''Not found''), m))"

definition do_GET :: "world \<Rightarrow> real \<Rightarrow> manager \<Rightarrow> string \<Rightarrow> http_response outcome \<times> manager" where
  "do_GET w now m path =
     (if path = ''/'' then
        (Returns (200, JObj [(''name'', JStr ''MCP Proxy Server''),
                             (''version'', JStr ''1.0.0''),
                             (''servers'', JArr (map (\<lambda>(n, i). JStr n) (servers m))),
                             (''endpoints'', JArr (map (\<lambda>(n, i). JStr (''/'' @ n)) (servers m)))]), m)
      else if path = ''/status'' then (Returns (200, JObj (get_server_status now m)), m)
      else if prefix ''/'' path \<and> length path > 1 then
        (let server_name = path_server_name path
         in if server_name \<in> fst ` set (servers m) then
              (case list_tools w now m server_name of
                 (Returns tools, m') \<Rightarrow>
                   (Returns (200, JObj [(''server'', JStr server_name), (''tools'', tools)]), m')
               | (Raises e, m') \<Rightarrow>
                   (Returns (send_error_response 500 (''Error listing tools: '' @ error_text w e)), m')
               | (Blocks, m') \<Rightarrow> (Blocks, m'))
            else (Returns (send_error_response 404 (''Server not found: '' @ server_name)), m))
      else (Returns (send_error_response 404 ''Not found''), m))"

subsection \<open>Handler threads on one child\<close>

text \<open>
  \<open>socketserver.ThreadingTCPServer\<close> runs every request in a thread of its own, and the
  command driver takes no lock. A call in flight has written its line or not, and has
  read its reply or not; a schedule names the caller that runs its next pipe operation.
  The two operations are the ones \<open>call_command_tool\<close> and \<open>list_command_tools\<close> perform,
  each taken as one step.
\<close>

datatype caller_state = Idle | Wrote | Got string | Failed py_error

definition caller_step ::
  "(string \<Rightarrow> string list) \<Rightarrow> string list \<Rightarrow> process \<times> caller_state list \<Rightarrow> nat
     \<Rightarrow> process \<times> caller_state list" where
  "caller_step prog requests st i =
     (let (p, cs) = st
      in if i < length cs \<and> i < length requests then
           (case cs ! i of
              Idle \<Rightarrow>
                (case stdin_write prog p (requests ! i) of
                   (Returns u, p') \<Rightarrow> (p', cs[i := Wrote])
                 | (Raises e, p') \<Rightarrow> (p', cs[i := Failed e])
                 | (Blocks, p') \<Rightarrow> (p', cs))
            | Wrote \<Rightarrow>
                (case stdout_readline p of
                   (Returns line, p') \<Rightarrow> (p', cs[i := Got line])
                 | (Raises e, p') \<Rightarrow> (p', cs[i := Failed e])
                 | (Blocks, p') \<Rightarrow> (p', cs))
            | Got line \<Rightarrow> (p, cs)
            | Failed e \<Rightarrow> (p, cs))
         else (p, cs))"

definition run_schedule ::
  "(string \<Rightarrow> string list) \<Rightarrow> string list \<Rightarrow> nat list \<Rightarrow> process \<times> caller_state list
     \<Rightarrow> process \<times> caller_state list" where
  "run_schedule prog requests schedule st = foldl (caller_step prog requests) st schedule"


subsection \<open>A concrete world: \<open>cat\<close> as the child\<close>

text \<open>
  \<open>json.dumps\<close> with its default separators, for documents whose strings are ASCII; the
  text of a float is left to \<open>float_text\<close>.
\<close>

definition hex_digit :: "nat \<Rightarrow> char" where
  "hex_digit d = ''0123456789abcdef'' ! d"

definition escape_char :: "char \<Rightarrow> string" where
  "escape_char c =
     (if c = CHR 0x22 then [CHR 0x5C, CHR 0x22]
      else if c = CHR 0x5C then [CHR 0x5C, CHR 0x5C]
      else if c = CHR 0x0A then [CHR 0x5C, CHR ''n'']
      else if c = CHR 0x0D then [CHR 0x5C, CHR ''r'']
      else if c = CHR 0x09 then [CHR 0x5C, CHR ''t'']
      else if c = CHR 0x08 then [CHR 0x5C, CHR ''b'']
      else if c = CHR 0x0C then [CHR 0x5C, CHR ''f'']
      else if (of_char c :: nat) < 32
      then [CHR 0x5C, CHR ''u'', CHR ''0'', CHR ''0'',
            hex_digit (of_char c div 16), hex_digit (of_char c mod 16)]
      else [c])"

definition quoted :: "string \<Rightarrow> string" where
  "quoted s = CHR 0x22 # concat (map escape_char s) @ [CHR 0x22]"

fun join :: "string \<Rightarrow> string list \<Rightarrow> string" where
  "join sep [] = []"
| "join sep [x] = x"
| "join sep (x # y # ys) = x @ sep @ join sep (y # ys)"

fun json_dumps :: "(real \<Rightarrow> string) \<Rightarrow> json \<Rightarrow> string" where
  "json_dumps float_text JNull = ''null''"
| "json_dumps float_text (JBool b) = (if b then ''true'' else ''false'')"
| "json_dumps float_text (JInt i) = str_int i"
| "json_dumps float_text (JFloat x) = float_text x"
| "json_dumps float_text (JStr s) = quoted s"
| "json_dumps float_text (JArr xs) = ''['' @ join '', '' (map (json_dumps float_text) xs) @ '']''"
| "json_dumps float_text (JObj kvs) =
     ''{'' @ join '', '' (map (\<lambda>(k, v). quoted k @ '': '' @ json_dumps float_text v) kvs) @ ''}''"

definition no_text :: "json \<Rightarrow> string" where
  "no_text v = []"

definition no_float :: "real \<Rightarrow> string" where
  "no_float x = []"

text \<open>
  The first scenario of the specification: one upstream \<open>echo\<close> whose command is \<open>cat\<close>,
  and the body of a POST that calls the tool \<open>noop\<close> with no arguments. \<open>noop_request\<close> is
  the envelope of that call at the time 1700000000.
\<close>

definition echo_config :: json where
  "echo_config = JObj [(''mcpServers'', JObj [(''echo'', JObj [(''command'', JStr ''cat''),
                         (''disabled'', JBool False)])])]"

definition post_body :: string where
  "post_body = ''{'' @ quoted ''tool'' @ '':'' @ quoted ''noop'' @ '','' @ quoted ''arguments''
               @ '':{}}''"

definition noop_call :: json where
  "noop_call = JObj [(''tool'', JStr ''noop''), (''arguments'', JObj [])]"

definition noop_request :: json where
  "noop_request = JObj [(''jsonrpc'', JStr ''2.0''),
                        (''id'', JStr ''echo_noop_1700000000000''),
                        (''method'', JStr ''tools/call''),
                        (''params'', JObj [(''name'', JStr ''noop''), (''arguments'', JObj [])])]"

text \<open>
  A world in which the child is \<open>cat\<close> (it prints every line it reads), \<open>Popen\<close> succeeds
  with pid 4242, \<open>json.loads\<close> reads the two texts that occur in the scenario and no
  other, and nothing is reachable by \<open>urlopen\<close>.
\<close>

definition cat :: "nat \<Rightarrow> string \<Rightarrow> string list" where
  "cat n line = [line]"

definition cat_world :: world where
  "cat_world = \<lparr>dumps = json_dumps no_float,
                 loads = map_of [(post_body, noop_call),
                                 (json_dumps no_float noop_request, noop_request)],
                 fmt = no_text,
                 exc_text = (\<lambda>e. ''[Errno 32] Broken pipe''),
                 program = cat,
                 popen = (\<lambda>cmd env. Some 4242),
                 urlopen = (\<lambda>url headers body. None)\<rparr>"

definition manager0 :: "json \<Rightarrow> manager" where
  "manager0 cfg = \<lparr>mconfig = cfg, servers = [], processes = [], log = []\<rparr>"


section \<open>process_monitor.py: the process supervisor\<close>

text \<open>
  An entry of \<open>self.processes\<close>: the pid of the \<open>Popen\<close> object, the command line, the
  environment handed to \<open>Popen\<close> and the start time. The two files opened on the null
  device are closed when the entry is removed.
\<close>

record proc_info =
  pi_pid :: nat
  pi_command :: "string list"
  pi_env :: "string \<rightharpoonup> json"
  pi_start_time :: real

text \<open>
  The monitor. \<open>popen_calls\<close> is the trace of the \<open>subprocess.Popen\<close> calls made so far,
  by server name; \<open>mlog\<close> holds the warnings and errors of the logger.
\<close>

record monitor =
  mon_config :: "json option"
  mon_processes :: "(string \<times> proc_info) list"
  restart_counts :: "(string \<times> int) list"
  max_restarts :: int
  running :: bool
  popen_calls :: "string list"
  mlog :: "string list"

text \<open>
  What one pass of the monitor loop finds outside the program: the time, which pids
  \<open>poll()\<close> reports as exited, and the pid a \<open>Popen\<close> call returns (\<open>None\<close> when it raises).
\<close>

record tick =
  clock :: real
  polled_exit :: "nat \<Rightarrow> bool"
  spawn :: "string list \<Rightarrow> (string \<rightharpoonup> json) \<Rightarrow> nat option"

text \<open>
  The environment loop of \<open>_start_process\<close>: as in the proxy, but a value that is not a
  placeholder is stored as it is.
\<close>

fun monitor_env ::
  "environ \<Rightarrow> (string \<times> json) list \<Rightarrow> (string \<rightharpoonup> json) \<Rightarrow> string list
     \<Rightarrow> (string \<rightharpoonup> json) \<times> string list" where
  "monitor_env os_environ [] env warnings = (env, warnings)"
| "monitor_env os_environ ((key, JStr v) # rest) env warnings =
     (if is_placeholder v then
        (let env_var_name = placeholder_name v
         in case os_environ env_var_name of
              Some x \<Rightarrow> monitor_env os_environ rest (env(key \<mapsto> JStr x)) warnings
            | None \<Rightarrow>
                monitor_env os_environ rest (env(key \<mapsto> JStr v))
                  (warnings @ [''Environment variable not found: '' @ env_var_name]))
      else monitor_env os_environ rest (env(key \<mapsto> JStr v)) warnings)"
| "monitor_env os_environ ((key, other) # rest) env warnings =
     monitor_env os_environ rest (env(key \<mapsto> other)) warnings"

definition environ_copy :: "environ \<Rightarrow> (string \<rightharpoonup> json)" where
  "environ_copy os_environ = (\<lambda>k. map_option JStr (os_environ k))"

text \<open>
  \<open>_start_process\<close>: every exception is caught and makes the result \<open>False\<close>. The restart
  count of a name is set to zero only when the name has none yet.
\<close>

definition start_process ::
  "tick \<Rightarrow> environ \<Rightarrow> monitor \<Rightarrow> string \<Rightarrow> json \<Rightarrow> bool \<times> monitor" where
  "start_process t os_environ m server_name server_config =
     (case server_config of
        JObj kvs \<Rightarrow>
          (let command = dict_get kvs ''command'' JNull;
               args = dict_get kvs ''args'' (JArr []);
               env_vars = dict_get kvs ''env'' (JObj [])
           in if \<not> truthy command
              then (False, m\<lparr>mlog := mlog m @ [''No command specified for server: '' @ server_name]\<rparr>)
              else (case env_vars of
                      JObj items \<Rightarrow>
                        (let (env, warnings) =
                               monitor_env os_environ items (environ_copy os_environ) [];
                             m1 = m\<lparr>mlog := mlog m @ warnings\<rparr>
                         in case command_line command args of
                              None \<Rightarrow> (False, m1)
                            | Some cmd \<Rightarrow>
                                (let m2 = m1\<lparr>popen_calls := popen_calls m1 @ [server_name]\<rparr>
                                 in case spawn t cmd env of
                                      None \<Rightarrow> (False, m2)
                                    | Some n \<Rightarrow>
                                        (True,
                                         m2\<lparr>mon_processes := AList.update server_name
                                                \<lparr>pi_pid = n, pi_command = cmd, pi_env = env,
                                                 pi_start_time = clock t\<rparr>
                                                (mon_processes m2),
                                             restart_counts :=
                                               (if server_name \<in> fst ` set (restart_counts m2)
                                                then restart_counts m2
                                                else AList.update server_name 0 (restart_counts m2))\<rparr>)))
                    | _ \<Rightarrow> (False, m)))
      | _ \<Rightarrow> (False, m))"

text \<open>
  \<open>start_processes\<close>: nothing without a configuration that has \<open>mcpServers\<close>; the
  \<open>disabled\<close> test and \<open>.items()\<close> raise \<open>AttributeError\<close> on a value that is not an object.
\<close>

fun start_each_process ::
  "tick \<Rightarrow> environ \<Rightarrow> (string \<times> json) list \<Rightarrow> monitor \<Rightarrow> py_error option \<times> monitor" where
  "start_each_process t os_environ [] m = (None, m)"
| "start_each_process t os_environ ((server_name, JObj kvs) # rest) m =
     (if truthy (dict_get kvs ''disabled'' (JBool False)) then start_each_process t os_environ rest m
      else start_each_process t os_environ rest
             (snd (start_process t os_environ m server_name (JObj kvs))))"
| "start_each_process t os_environ ((server_name, other) # rest) m = (Some AttributeError, m)"

definition start_processes :: "tick \<Rightarrow> environ \<Rightarrow> monitor \<Rightarrow> py_error option \<times> monitor" where
  "start_processes t os_environ m =
     (let nothing = (None, m\<lparr>mlog := mlog m @ [''No MCP servers configured'']\<rparr>)
      in case mon_config m of
           None \<Rightarrow> nothing
         | Some cfg \<Rightarrow>
             if \<not> truthy cfg then nothing
             else (case py_in ''mcpServers'' cfg of
                     None \<Rightarrow> (Some TypeError, m)
                   | Some False \<Rightarrow> nothing
                   | Some True \<Rightarrow>
                       (case cfg of
                          JObj kvs \<Rightarrow>
                            (case dict_get kvs ''mcpServers'' (JObj []) of
                               JObj mcp_servers \<Rightarrow> start_each_process t os_environ mcp_servers m
                             | _ \<Rightarrow> (Some AttributeError, m))
                        | _ \<Rightarrow> (Some AttributeError, m))))"

text \<open>
  \<open>self.config.get("mcpServers", {}).get(server_name)\<close> in the monitor loop.
\<close>

definition lookup_server_config :: "json option \<Rightarrow> string \<Rightarrow> py_error + json" where
  "lookup_server_config cfg server_name =
     (case cfg of
        Some (JObj kvs) \<Rightarrow>
          (case dict_get kvs ''mcpServers'' (JObj []) of
             JObj mcp_servers \<Rightarrow> Inr (dict_get mcp_servers server_name JNull)
           | _ \<Rightarrow> Inl AttributeError)
      | _ \<Rightarrow> Inl AttributeError)"

text \<open>
  The body of the \<open>for\<close> loop of \<open>monitor_processes\<close> for one entry of the snapshot
  \<open>list(self.processes.items())\<close>. Nothing catches an exception here: it ends the
  monitor thread, and the state is the one reached.
\<close>

definition monitor_entry ::
  "tick \<Rightarrow> environ \<Rightarrow> monitor \<Rightarrow> string \<times> proc_info \<Rightarrow> py_error option \<times> monitor" where
  "monitor_entry t os_environ m entry =
     (let (server_name, process_info) = entry
      in if \<not> polled_exit t (pi_pid process_info) then (None, m)
         else if server_name \<notin> fst ` set (mon_processes m) then (Some (KeyError server_name), m)
         else
           (let m1 = m\<lparr>mon_processes := AList.delete server_name (mon_processes m)\<rparr>
            in case map_of (restart_counts m1) server_name of
                 None \<Rightarrow> (Some (KeyError server_name), m1)
               | Some c \<Rightarrow>
                   if c < max_restarts m1 then
                     (let m2 = m1\<lparr>restart_counts := AList.update server_name (c + 1) (restart_counts m1)\<rparr>
                      in case lookup_server_config (mon_config m2) server_name of
                           Inl e \<Rightarrow> (Some e, m2)
                         | Inr server_config \<Rightarrow>
                             if truthy server_config
                             then (None, snd (start_process t os_environ m2 server_name server_config))
                             else (None, m2\<lparr>mlog := mlog m2 @
                                      [''Server configuration not found for '' @ server_name]\<rparr>))
                   else (None, m1\<lparr>mlog := mlog m1 @
                           [''Process '' @ server_name @ '' has been restarted ''
                            @ str_int c @ '' times, giving up'']\<rparr>)))"

fun monitor_sweep ::
  "tick \<Rightarrow> environ \<Rightarrow> (string \<times> proc_info) list \<Rightarrow> monitor \<Rightarrow> py_error option \<times> monitor" where
  "monitor_sweep t os_environ [] m = (None, m)"
| "monitor_sweep t os_environ (entry # rest) m =
     (case monitor_entry t os_environ m entry of
        (Some e, m') \<Rightarrow> (Some e, m')
      | (None, m') \<Rightarrow> monitor_sweep t os_environ rest m')"

text \<open>
  \<open>monitor_processes\<close>: the \<open>while self.running\<close> loop, one pass per tick. The loop has no
  end of its own; a list of ticks is a run of it up to some moment.
\<close>

fun monitor_processes :: "environ \<Rightarrow> tick list \<Rightarrow> monitor \<Rightarrow> py_error option \<times> monitor" where
  "monitor_processes os_environ [] m = (None, m)"
| "monitor_processes os_environ (t # ts) m =
     (if \<not> running m then (None, m)
      else (case monitor_sweep t os_environ (mon_processes m) m of
              (Some e, m') \<Rightarrow> (Some e, m')
            | (None, m') \<Rightarrow> monitor_processes os_environ ts m'))"

text \<open>
  \<open>get_process_status\<close>, without the resource figures read from \<open>ps\<close>.
\<close>

definition get_process_status :: "tick \<Rightarrow> monitor \<Rightarrow> (string \<times> json) list" where
  "get_process_status t m =
     map (\<lambda>(server_name, process_info).
            (server_name,
             JObj [(''pid'', JInt (int (pi_pid process_info))),
                   (''running'', JBool (\<not> polled_exit t (pi_pid process_info))),
                   (''uptime'', JFloat (clock t - pi_start_time process_info)),
                   (''restart_count'',
                      JInt (case map_of (restart_counts m) server_name of None \<Rightarrow> 0 | Some c \<Rightarrow> c)),
                   (''command'', JArr (map JStr (pi_command process_info)))]))
         (mon_processes m)"

subsection \<open>What the claims about the supervisor speak of\<close>

text \<open>
  An upstream is given up when its restart count has reached \<open>max_restarts\<close>: the test
  \<open>restart_counts[name] < max_restarts\<close> of the monitor loop fails for it from then on.
  The restart counts of one state are below those of another when every name counted in
  the first is counted at least as high in the second. The launches of a name are the
  \<open>Popen\<close> calls made for it.
\<close>

definition given_up :: "monitor \<Rightarrow> string \<Rightarrow> bool" where
  "given_up m server_name =
     (case map_of (restart_counts m) server_name of
        None \<Rightarrow> False
      | Some c \<Rightarrow> max_restarts m \<le> c)"

definition counts_le :: "monitor \<Rightarrow> monitor \<Rightarrow> bool" where
  "counts_le m m' \<longleftrightarrow>
     (\<forall>n c. map_of (restart_counts m) n = Some c \<longrightarrow>
        (\<exists>c'. map_of (restart_counts m') n = Some c' \<and> c \<le> c'))"

definition launches :: "monitor \<Rightarrow> string \<Rightarrow> nat" where
  "launches m server_name = count_list (popen_calls m) server_name"

text \<open>
  What one step of the supervisor for the entry of \<open>who\<close> may change, and what any run of
  the supervisor keeps.
\<close>

definition sup_step :: "string \<Rightarrow> monitor \<Rightarrow> monitor \<Rightarrow> bool" where
  "sup_step who m m' \<longleftrightarrow>
     max_restarts m' = max_restarts m \<and> mon_config m' = mon_config m \<and> running m' = running m \<and>
     counts_le m m' \<and>
     (popen_calls m' = popen_calls m \<or>
      (popen_calls m' = popen_calls m @ [who] \<and> \<not> given_up m who))"

definition supervised :: "monitor \<Rightarrow> monitor \<Rightarrow> bool" where
  "supervised m m' \<longleftrightarrow>
     max_restarts m' = max_restarts m \<and> counts_le m m' \<and>
     (\<forall>n. given_up m n \<longrightarrow> given_up m' n \<and> launches m' n = launches m n)"

text \<open>
  The supervisor of \<open>test_monitor_processes\<close>: one server, \<open>sleep 0.1\<close>, at most one
  restart. In every tick below each polled child has exited and \<open>Popen\<close> succeeds.
  \<open>monitor1\<close> is the monitor after \<open>start_processes\<close> and one pass of the loop.
\<close>

definition sleep_servers :: "(string \<times> json) list" where
  "sleep_servers = [(''test-server'', JObj [(''command'', JStr ''sleep''),
                      (''args'', JArr [JStr ''0.1'']), (''disabled'', JBool False)])]"

definition sleep_config :: json where
  "sleep_config = JObj [(''mcpServers'', JObj sleep_servers)]"

definition monitor0 :: monitor where
  "monitor0 = \<lparr>mon_config = Some sleep_config, mon_processes = [], restart_counts = [],
                max_restarts = 1, running = True, popen_calls = [], mlog = []\<rparr>"

definition tick_exited :: "nat \<Rightarrow> tick" where
  "tick_exited next_pid = \<lparr>clock = 0, polled_exit = (\<lambda>p. True), spawn = (\<lambda>cmd env. Some next_pid)\<rparr>"

definition monitor1 :: monitor where
  "monitor1 = snd (monitor_processes Map.empty [tick_exited 2]
                    (snd (start_processes (tick_exited 1) Map.empty monitor0)))"

section \<open>health_check.py: the health aggregator\<close>

text \<open>What \<open>urlopen(req, timeout=5)\<close> does for a probe.\<close>

datatype probe = ProbeStatus int | ProbeURLError string | ProbeException string

record health_server =
  hs_config :: "json option"
  hs_config_path :: string
  mcp_servers_status :: "(string \<times> json) list"
  last_check_time :: real
  is_healthy :: bool
  hs_check_interval :: real
  process_monitor :: "monitor option"

definition probe_entry :: "string \<Rightarrow> bool \<Rightarrow> string \<Rightarrow> json" where
  "probe_entry status healthy message =
     JObj [(''status'', JStr status), (''healthy'', JBool healthy), (''message'', JStr message)]"

definition probe_url :: "(json \<Rightarrow> string) \<Rightarrow> json \<Rightarrow> json \<Rightarrow> string \<Rightarrow> string" where
  "probe_url other_text proxy_host proxy_port server_name =
     ''http://'' @ py_format other_text proxy_host @ '':'' @ py_format other_text proxy_port
       @ ''/health?server='' @ server_name"

text \<open>
  The loop of \<open>check_mcp_servers\<close> with its two variables \<open>results\<close> and
  \<open>overall_healthy\<close>; \<open>server_config.get\<close> raises on a value that is not an object.
\<close>

fun check_each ::
  "(json \<Rightarrow> string) \<Rightarrow> (string \<Rightarrow> probe) \<Rightarrow> json \<Rightarrow> json \<Rightarrow> (string \<times> json) list
     \<Rightarrow> (string \<times> json) list \<Rightarrow> bool \<Rightarrow> py_error + ((string \<times> json) list \<times> bool)" where
  "check_each other_text urlopen_probe proxy_host proxy_port [] results overall_healthy =
     Inr (results, overall_healthy)"
| "check_each other_text urlopen_probe proxy_host proxy_port ((server_name, JObj kvs) # rest)
     results overall_healthy =
     (if truthy (dict_get kvs ''disabled'' (JBool False)) then
        check_each other_text urlopen_probe proxy_host proxy_port rest
          (AList.update server_name (probe_entry ''disabled'' True ''Server is disabled'') results)
          overall_healthy
      else
        (case urlopen_probe (probe_url other_text proxy_host proxy_port server_name) of
           ProbeStatus code \<Rightarrow>
             if code = 200 then
               check_each other_text urlopen_probe proxy_host proxy_port rest
                 (AList.update server_name (probe_entry ''healthy'' True ''Server is responding'') results)
                 overall_healthy
             else
               check_each other_text urlopen_probe proxy_host proxy_port rest
                 (AList.update server_name
                    (probe_entry ''unhealthy'' False (''Server returned status code '' @ str_int code))
                    results)
                 False
         | ProbeURLError text \<Rightarrow>
             check_each other_text urlopen_probe proxy_host proxy_port rest
               (AList.update server_name
                  (probe_entry ''unhealthy'' False (''Failed to connect to server: '' @ text)) results)
               False
         | ProbeException text \<Rightarrow>
             check_each other_text urlopen_probe proxy_host proxy_port rest
               (AList.update server_name
                  (probe_entry ''unknown'' False (''Error checking server health: '' @ text)) results)
               False))"
| "check_each other_text urlopen_probe proxy_host proxy_port ((server_name, other) # rest)
     results overall_healthy = Inl AttributeError"

text \<open>
  \<open>check_mcp_servers\<close>: the result and the server afterwards. An exception leaves the
  server as it was.
\<close>

definition check_mcp_servers ::
  "(json \<Rightarrow> string) \<Rightarrow> (string \<Rightarrow> probe) \<Rightarrow> real \<Rightarrow> health_server
     \<Rightarrow> (py_error + (string \<times> json) list) \<times> health_server" where
  "check_mcp_servers other_text urlopen_probe now self =
     (let nothing = (Inr [], self\<lparr>is_healthy := False\<rparr>)
      in case hs_config self of
           None \<Rightarrow> nothing
         | Some cfg \<Rightarrow>
             if \<not> truthy cfg then nothing
             else (case py_in ''mcpServers'' cfg of
                     None \<Rightarrow> (Inl TypeError, self)
                   | Some False \<Rightarrow> nothing
                   | Some True \<Rightarrow>
                       (case cfg of
                          JObj kvs \<Rightarrow>
                            (case (dict_get kvs ''mcpServers'' (JObj []), dict_get kvs ''proxy'' (JObj [])) of
                               (JObj mcp_servers, JObj proxy_config) \<Rightarrow>
                                 (let proxy_port = dict_get proxy_config ''port'' (JInt 8000);
                                      proxy_host = dict_get proxy_config ''host'' (JStr ''0.0.0.0'')
                                  in case check_each other_text urlopen_probe proxy_host proxy_port
                                            mcp_servers [] True of
                                       Inl e \<Rightarrow> (Inl e, self)
                                     | Inr (results, overall_healthy) \<Rightarrow>
                                         (Inr results,
                                          self\<lparr>mcp_servers_status := results,
                                               is_healthy := overall_healthy,
                                               last_check_time := now\<rparr>))
                             | _ \<Rightarrow> (Inl AttributeError, self))
                        | _ \<Rightarrow> (Inl AttributeError, self))))"

text \<open>
  \<open>get_health_status\<close>: a refresh when the last check is older than the interval, then
  the report. \<open>resources\<close> is what \<open>check_system_resources\<close> measured.
\<close>

definition get_health_status ::
  "(json \<Rightarrow> string) \<Rightarrow> (string \<Rightarrow> probe) \<Rightarrow> json \<Rightarrow> real \<Rightarrow> health_server
     \<Rightarrow> (py_error + json) \<times> health_server" where
  "get_health_status other_text urlopen_probe resources current_time self =
     (let (refreshed, self1) =
            (if current_time - last_check_time self > hs_check_interval self
             then check_mcp_servers other_text urlopen_probe current_time self
             else (Inr [], self))
      in case refreshed of
           Inl e \<Rightarrow> (Inl e, self1)
         | Inr r \<Rightarrow>
             (Inr (JObj [(''status'', JStr (if is_healthy self1 then ''healthy'' else ''unhealthy'')),
                         (''timestamp'', JInt (py_int current_time)),
                         (''mcp_servers'', JObj (mcp_servers_status self1)),
                         (''resources'', resources),
                         (''config_path'', JStr (hs_config_path self1))]),
              self1))"

text \<open>The status code of \<open>GET /health\<close>.\<close>

definition health_status_code :: "health_server \<Rightarrow> int" where
  "health_status_code self = (if is_healthy self then 200 else 503)"

subsection \<open>What the claim about the aggregator speaks of\<close>









subsection \<open>What the claim about the child's environment speaks of\<close>

text \<open>
  The environment handed to \<open>Popen\<close> by the proxy and by the supervisor for the \<open>env\<close>
  map \<open>items\<close> of a server, the process registered under a name, and the environment
  recorded for a supervised process.
\<close>

definition proxy_child_env :: "world \<Rightarrow> environ \<Rightarrow> (string \<times> json) list \<Rightarrow> environ" where
  "proxy_child_env w os_environ items = fst (prepare_env w os_environ items os_environ [])"

definition monitor_child_env :: "environ \<Rightarrow> (string \<times> json) list \<Rightarrow> (string \<rightharpoonup> json)" where
  "monitor_child_env os_environ items =
     fst (monitor_env os_environ items (environ_copy os_environ) [])"

definition server_process :: "manager \<Rightarrow> string \<Rightarrow> process option" where
  "server_process m server_name =
     (case map_of (servers m) server_name of None \<Rightarrow> None | Some server_info \<Rightarrow> sprocess server_info)"

definition monitored_env :: "monitor \<Rightarrow> string \<Rightarrow> (string \<rightharpoonup> json) option" where
  "monitored_env m server_name = map_option pi_env (map_of (mon_processes m) server_name)"

definition warning_for :: "string \<Rightarrow> string" where
  "warning_for name = ''Environment variable not found: '' @ name"

text \<open>
  What one entry of the \<open>env\<close> map contributes: its value in the child's environment (for
  the proxy and for the supervisor) and its warnings.
\<close>

definition entry_value :: "(json \<Rightarrow> string) \<Rightarrow> environ \<Rightarrow> json \<Rightarrow> string" where
  "entry_value other_text os_environ v =
     (case v of
        JStr s \<Rightarrow>
          if is_placeholder s
          then (case os_environ (placeholder_name s) of Some x \<Rightarrow> x | None \<Rightarrow> s)
          else s
      | _ \<Rightarrow> other_text v)"

definition monitor_entry_value :: "environ \<Rightarrow> json \<Rightarrow> json" where
  "monitor_entry_value os_environ v =
     (case v of
        JStr s \<Rightarrow>
          if is_placeholder s
          then (case os_environ (placeholder_name s) of Some x \<Rightarrow> JStr x | None \<Rightarrow> JStr s)
          else JStr s
      | _ \<Rightarrow> v)"

definition entry_warnings :: "environ \<Rightarrow> json \<Rightarrow> string list" where
  "entry_warnings os_environ v =
     (case v of
        JStr s \<Rightarrow>
          if is_placeholder s \<and> os_environ (placeholder_name s) = None
          then [warning_for (placeholder_name s)] else []
      | _ \<Rightarrow> [])"

text \<open>The fifth scenario of the specification: \<open>"env": {"API_KEY": "${TK}"}\<close>.\<close>

definition tk_items :: "(string \<times> json) list" where
  "tk_items = [(''API_KEY'', JStr ''${TK}'')]"

definition tk_server :: "(string \<times> json) list" where
  "tk_server = [(''command'', JStr ''cat''), (''env'', JObj tk_items)]"

definition tk_set :: environ where
  "tk_set = [''TK'' \<mapsto> ''secret'']"

subsection \<open>What the claims about the proxy speak of\<close>



text \<open>The manager of the scenario with a child that has exited.\<close>

definition dead_echo_manager :: manager where
  "dead_echo_manager =
     \<lparr>mconfig = echo_config,
      servers = [(''echo'', \<lparr>stype = ''command'',
                              sconfig = JObj [(''command'', JStr ''cat''), (''disabled'', JBool False)],
                              sprocess = Some ((new_process 4242 Map.empty)\<lparr>exited := True\<rparr>),
                              surl = JNull, sheaders = JNull, start_time = 0\<rparr>)],
      processes = [(''echo'', 4242)], log = []\<rparr>"

text \<open>
  A command upstream whose \<open>env\<close> map holds a secret, and the manager after starting it.
\<close>

definition secret_server :: "string \<Rightarrow> json" where
  "secret_server secret =
     JObj [(''command'', JStr ''cat''), (''env'', JObj [(''API_KEY'', JStr secret)])]"

definition secret_manager :: "string \<Rightarrow> manager" where
  "secret_manager secret =
     snd (start_command_server cat_world Map.empty 0 (manager0 JNull) ''echo'' (secret_server secret))"


lemma findall_scan: "findall s = var_names (scan s)"
  by (induction s rule: findall.induct) (auto split: option.splits)

lemma render_empty_scan: "concat (map (render Map.empty) (scan s)) = s"
  by (induction s rule: scan.induct) (auto split: option.splits dest: match_token_decomp)

lemma scan_vars_valid: "Var n \<in> set (scan s) \<Longrightarrow> valid_name n"
  by (induction s rule: scan.induct) (auto split: option.splits dest: match_token_decomp)

lemma hd_tok: "tok n = CHR ''$'' # CHR ''{'' # n @ ''}''"
  by (simp add: tok_def)

lemma str_replace_step:
  "CHR ''$'' \<noteq> c \<Longrightarrow> str_replace (c # x) (tok n) v = c # str_replace x (tok n) v"
  by (subst str_replace.simps) (auto simp: hd_tok)

lemma str_replace_plain_prefix:
  "plain u \<Longrightarrow> str_replace (u @ x) (tok n) v = u @ str_replace x (tok n) v"
  by (induction u) (simp_all add: plain_def str_replace_step)

lemma dollar_not_name_char: "\<not> is_name_char CHR ''$''"
  by (simp add: is_name_char_def)

lemma valid_name_plain: "valid_name n \<Longrightarrow> plain n"
  using dollar_not_name_char by (auto simp: valid_name_def plain_def)

lemma str_replace_tok_same:
  "str_replace (tok n @ x) (tok n) v = v @ str_replace x (tok n) v"
  by (subst str_replace.simps) (simp add: tok_def)

lemma match_token_tok:
  assumes "valid_name n"
  shows "match_token (tok n @ r) = Some (n, r)"
proof -
  have nb: "\<not> is_name_char CHR ''}''" by (simp add: is_name_char_def)
  have 1: "takeWhile is_name_char (n @ CHR ''}'' # r) = n"
    using assms nb by (simp add: valid_name_def)
  have 2: "dropWhile is_name_char (n @ CHR ''}'' # r) = CHR ''}'' # r"
    using assms nb by (simp add: valid_name_def)
  show ?thesis using assms 1 2 by (simp add: tok_def valid_name_def)
qed

lemma prefix_tok_same_name:
  assumes "valid_name n" "valid_name m" "prefix (tok m) (tok n @ x)"
  shows "m = n"
proof -
  from assms(3) obtain y where "tok n @ x = tok m @ y" by (auto simp: prefix_def)
  then have "match_token (tok n @ x) = match_token (tok m @ y)" by simp
  then show ?thesis using assms(1,2) by (simp add: match_token_tok)
qed

lemma str_replace_tok_other:
  assumes "valid_name n" "valid_name m" "m \<noteq> n"
  shows "str_replace (tok n @ x) (tok m) v = tok n @ str_replace x (tok m) v"
proof -
  have np: "\<not> prefix (tok m) (tok n @ x)"
    using assms prefix_tok_same_name by blast
  have pl: "plain (CHR ''{'' # n @ ''}'')"
    using valid_name_plain[OF assms(1)] by (simp add: plain_def)
  have "str_replace (tok n @ x) (tok m) v
        = CHR ''$'' # str_replace ((CHR ''{'' # n @ ''}'') @ x) (tok m) v"
    using np by (subst str_replace.simps) (simp add: hd_tok)
  also have "\<dots> = CHR ''$'' # (CHR ''{'' # n @ ''}'') @ str_replace x (tok m) v"
    using str_replace_plain_prefix[OF pl] by simp
  finally show ?thesis by (simp add: hd_tok)
qed

lemma str_replace_render:
  assumes "pieces_ok env' ps" "valid_name m" "plain v" "env' m = None \<or> env' m = Some v"
  shows "str_replace (concat (map (render env') ps)) (tok m) v
         = concat (map (render (env'(m \<mapsto> v))) ps)"
  using assms(1)
proof (induction ps)
  case Nil
  then show ?case by (subst str_replace.simps) (simp add: tok_def)
next
  case (Cons p ps)
  then have ok: "pieces_ok env' ps" by (auto simp: pieces_ok_def)
  note IH = Cons.IH[OF ok]
  show ?case
  proof (cases p)
    case (Lit c)
    with Cons.prems have "plain [c]" by (auto simp: pieces_ok_def plain_def)
    from str_replace_plain_prefix[OF this] IH Lit show ?thesis by simp
  next
    case (Var n)
    with Cons.prems have vn: "valid_name n" and pw: "\<And>w. env' n = Some w \<Longrightarrow> plain w"
      by (auto simp: pieces_ok_def)
    show ?thesis
    proof (cases "env' n")
      case None
      show ?thesis
      proof (cases "m = n")
        case True
        then show ?thesis using None Var IH by (simp add: str_replace_tok_same)
      next
        case False
        then show ?thesis using None Var IH vn assms(2)
          by (simp add: str_replace_tok_other)
      qed
    next
      case (Some w)
      then have "plain w" by (rule pw)
      then have
        "str_replace (w @ concat (map (render env') ps)) (tok m) v
         = w @ concat (map (render (env'(m \<mapsto> v))) ps)"
        by (simp only: str_replace_plain_prefix IH)
      moreover have "render (env'(m \<mapsto> v)) (Var n) = w"
        using Some assms(4) by auto
      moreover have "render env' (Var n) = w"
        using Some by simp
      ultimately show ?thesis unfolding Var
        by (simp only: list.map concat.simps)
    qed
  qed
qed

lemma subst_loop_missing:
  "snd (subst_loop env ns r m) = m @ filter (\<lambda>n. env n = None) ns"
  by (induction ns arbitrary: r m) (auto split: option.splits)

lemma pieces_ok_restrict: "pieces_ok env ps \<Longrightarrow> pieces_ok (env |` P) ps"
  by (auto simp: pieces_ok_def restrict_map_def split: if_splits)

lemma restrict_insert_upd: "env n = Some w \<Longrightarrow> (env |` P)(n \<mapsto> w) = env |` insert n P"
  by (auto simp: restrict_map_def fun_eq_iff)

lemma subst_loop_render:
  assumes "pieces_ok env ps"
    and "\<forall>n \<in> set ns. valid_name n \<and> (\<exists>w. env n = Some w \<and> plain w)"
  shows "fst (subst_loop env ns (concat (map (render (env |` P)) ps)) m)
         = concat (map (render (env |` (P \<union> set ns))) ps)"
  using assms(2)
proof (induction ns arbitrary: P)
  case Nil
  then show ?case by simp
next
  case (Cons n ns)
  then obtain w where w: "env n = Some w" "plain w" and vn: "valid_name n" by auto
  have r: "(env |` P) n = None \<or> (env |` P) n = Some w"
    using w by (simp add: restrict_map_def)
  have "str_replace (concat (map (render (env |` P)) ps)) (tok n) w
        = concat (map (render ((env |` P)(n \<mapsto> w))) ps)"
    by (rule str_replace_render[OF pieces_ok_restrict[OF assms(1)] vn w(2) r])
  also have "\<dots> = concat (map (render (env |` insert n P)) ps)"
    using restrict_insert_upd[of env n w P] w(1) by simp
  finally have step: "str_replace (concat (map (render (env |` P)) ps)) (tok n) w
        = concat (map (render (env |` insert n P)) ps)" .
  have "fst (subst_loop env (n # ns) (concat (map (render (env |` P)) ps)) m)
        = fst (subst_loop env ns (concat (map (render (env |` insert n P)) ps)) m)"
    using w(1) step by simp
  also have "\<dots> = concat (map (render (env |` (insert n P \<union> set ns))) ps)"
    using Cons.prems by (intro Cons.IH) simp
  finally show ?case by simp
qed

lemma set_var_names: "set (var_names ps) = {n. Var n \<in> set ps}"
  by (induction ps rule: var_names.induct) auto

lemma render_cong:
  "(\<And>n. Var n \<in> set ps \<Longrightarrow> e1 n = e2 n) \<Longrightarrow> map (render e1) ps = map (render e2) ps"
proof (induction ps)
  case Nil
  then show ?case by simp
next
  case (Cons p ps)
  then show ?case by (cases p) auto
qed

lemma env_plain_alt:
  "env_plain env s \<longleftrightarrow> (\<forall>n \<in> set (findall s). \<exists>w. env n = Some w \<and> plain w)"
  unfolding env_plain_def by (auto split: option.splits)

lemma process_str_spec:
  assumes "dollars_begin_tokens s" "env_plain env s"
  shows "process_str env s = (spec_subst_str env s, [])"
proof -
  have names: "set (findall s) = {n. Var n \<in> set (scan s)}"
    by (simp add: findall_scan set_var_names)
  have ok: "pieces_ok env (scan s)"
    using assms names by (auto simp: pieces_ok_def dollars_begin_tokens_def env_plain_alt
        dest: scan_vars_valid)
  have ns: "\<forall>n \<in> set (findall s). valid_name n \<and> (\<exists>w. env n = Some w \<and> plain w)"
    using assms(2) names by (auto simp: env_plain_alt dest: scan_vars_valid)
  have "fst (subst_loop env (findall s) (concat (map (render (env |` {})) (scan s))) [])
        = concat (map (render (env |` ({} \<union> set (findall s)))) (scan s))"
    by (rule subst_loop_render[OF ok ns])
  moreover have "map (render (env |` ({} \<union> set (findall s)))) (scan s) = map (render env) (scan s)"
    by (rule render_cong) (simp add: names)
  moreover have "concat (map (render (env |` {})) (scan s)) = s"
    by (simp add: render_empty_scan)
  ultimately have "fst (subst_loop env (findall s) s []) = concat (map (render env) (scan s))"
    by (simp only:)
  then have "fst (process_str env s) = spec_subst_str env s"
    by (simp add: process_str_def spec_subst_str_def)
  moreover have "snd (process_str env s) = []"
    using ns by (auto simp: process_str_def subst_loop_missing filter_empty_conv)
  ultimately show ?thesis by (simp add: prod_eq_iff)
qed

lemma process_str_missing:
  "snd (process_str env s) = filter (\<lambda>n. env n = None) (findall s)"
  by (simp add: process_str_def subst_loop_missing)

lemma values_plain_alt:
  "values_plain env cfg \<longleftrightarrow> (\<forall>n \<in> set (referenced cfg). \<exists>w. env n = Some w \<and> plain w)"
  unfolding values_plain_def by (auto split: option.splits)

lemma concat_map_concat:
  "concat (map f (concat xss)) = concat (map (\<lambda>xs. concat (map f xs)) xss)"
  by (induction xss) simp_all

lemma referenced_JObj_eq:
  "referenced (JObj kvs) = concat (map (\<lambda>(k, v). referenced v) kvs)"
  by (induction kvs) (auto simp: referenced_def)

lemma referenced_JArr_eq:
  "referenced (JArr items) = concat (map referenced items)"
  by (induction items) (auto simp: referenced_def)

lemma process_value_missing:
  "snd (process_value env v) = filter (\<lambda>n. env n = None) (referenced v)"
proof (induction env v rule: process_value.induct)
  case (1 env s)
  then show ?case by (simp add: referenced_def process_str_missing)
next
  case (2 env kvs)
  have e: "map (\<lambda>(k, v). snd (process_value env v)) kvs
        = map (\<lambda>(k, v). filter (\<lambda>n. env n = None) (referenced v)) kvs"
    using 2 by (intro map_cong) auto
  have "snd (process_value env (JObj kvs)) = concat (map (\<lambda>(k, v). snd (process_value env v)) kvs)"
    by simp
  also have "\<dots> = concat (map (\<lambda>(k, v). filter (\<lambda>n. env n = None) (referenced v)) kvs)"
    by (simp only: e)
  also have "\<dots> = filter (\<lambda>n. env n = None) (referenced (JObj kvs))"
    by (simp add: referenced_JObj_eq filter_concat comp_def case_prod_unfold)
  finally show ?case .
next
  case (3 env items)
  have e: "map (\<lambda>item. snd (process_value env item)) items
        = map (\<lambda>item. filter (\<lambda>n. env n = None) (referenced item)) items"
    using 3 by (intro map_cong) auto
  have "snd (process_value env (JArr items)) = concat (map (\<lambda>item. snd (process_value env item)) items)"
    by simp
  also have "\<dots> = concat (map (\<lambda>item. filter (\<lambda>n. env n = None) (referenced item)) items)"
    by (simp only: e)
  also have "\<dots> = filter (\<lambda>n. env n = None) (referenced (JArr items))"
    by (simp add: referenced_JArr_eq filter_concat comp_def)
  finally show ?case .
qed (simp_all add: referenced_def)

lemma tokens_isolated_JObj:
  "tokens_isolated (JObj kvs) \<Longrightarrow> (k, v) \<in> set kvs \<Longrightarrow> tokens_isolated v"
  unfolding tokens_isolated_def by force

lemma tokens_isolated_JArr:
  "tokens_isolated (JArr items) \<Longrightarrow> v \<in> set items \<Longrightarrow> tokens_isolated v"
  unfolding tokens_isolated_def by force

lemma values_plain_JObj:
  "values_plain env (JObj kvs) \<Longrightarrow> (k, v) \<in> set kvs \<Longrightarrow> values_plain env v"
  unfolding values_plain_alt referenced_JObj_eq by force

lemma values_plain_JArr:
  "values_plain env (JArr items) \<Longrightarrow> v \<in> set items \<Longrightarrow> values_plain env v"
  unfolding values_plain_alt referenced_JArr_eq by force

lemma process_value_spec:
  assumes "tokens_isolated v" "values_plain env v"
  shows "fst (process_value env v) = spec_subst_value env v"
  using assms
proof (induction env v rule: process_value.induct)
  case (1 env s)
  then have "dollars_begin_tokens s" "env_plain env s"
    by (simp_all add: tokens_isolated_def values_plain_alt env_plain_alt referenced_def)
  then show ?case by (simp add: process_str_spec)
next
  case (2 env kvs)
  have "\<And>kv. kv \<in> set kvs \<Longrightarrow>
          (case kv of (k, v) \<Rightarrow> (k, fst (process_value env v)))
          = (case kv of (k, v) \<Rightarrow> (k, spec_subst_value env v))"
  proof -
    fix kv assume m: "kv \<in> set kvs"
    obtain k v where kv: "kv = (k, v)" by (cases kv)
    have m': "(k, v) \<in> set kvs" using m kv by simp
    have "fst (process_value env v) = spec_subst_value env v"
      by (rule "2.IH"(1)[OF m kv[symmetric] tokens_isolated_JObj[OF "2.prems"(1) m']
            values_plain_JObj[OF "2.prems"(2) m']])
    then show "(case kv of (k, v) \<Rightarrow> (k, fst (process_value env v)))
          = (case kv of (k, v) \<Rightarrow> (k, spec_subst_value env v))"
      by (simp add: kv)
  qed
  then have "map (\<lambda>(k, v). (k, fst (process_value env v))) kvs
             = map (\<lambda>(k, v). (k, spec_subst_value env v)) kvs"
    by (rule map_cong[OF refl])
  then show ?case by (simp only: process_value.simps spec_subst_value.simps fst_conv)
next
  case (3 env items)
  have "\<And>v. v \<in> set items \<Longrightarrow> fst (process_value env v) = spec_subst_value env v"
    using "3.IH" tokens_isolated_JArr[OF "3.prems"(1)] values_plain_JArr[OF "3.prems"(2)]
    by simp
  then have "map (\<lambda>item. fst (process_value env item)) items = map (spec_subst_value env) items"
    by (rule map_cong[OF refl])
  then show ?case by (simp only: process_value.simps spec_subst_value.simps fst_conv)
qed simp_all

lemma substitute_env_vars_result:
  "fst (substitute_env_vars env self (Some cfg)) =
     (if unresolved env cfg \<noteq> {} then Inl (MissingEnvVars (unresolved env cfg))
      else Inr (fst (process_value env cfg)))"
proof -
  obtain p m where pm: "process_value env cfg = (p, m)" by (cases "process_value env cfg")
  then have m: "unresolved env cfg = set m"
    using process_value_missing[of env cfg] by (simp add: unresolved_def)
  show ?thesis
    unfolding m by (simp add: substitute_env_vars_def deep_copy_def pm)
qed

lemma findall_plain: "plain t \<Longrightarrow> findall t = []"
proof (induction t)
  case Nil
  then show ?case by simp
next
  case (Cons c t)
  then have "CHR ''$'' \<noteq> c" "plain t" by (auto simp: plain_def)
  then show ?case using Cons.IH by (cases t) auto
qed

lemma plain_concat: "(\<And>x. x \<in> set xs \<Longrightarrow> plain x) \<Longrightarrow> plain (concat xs)"
  by (induction xs) (auto simp: plain_def)

lemma spec_subst_str_plain:
  assumes "dollars_begin_tokens s" "env_plain env s"
  shows "plain (spec_subst_str env s)"
  unfolding spec_subst_str_def
proof (rule plain_concat)
  fix x assume "x \<in> set (map (render env) (scan s))"
  then obtain p where p: "p \<in> set (scan s)" "x = render env p" by auto
  show "plain x"
  proof (cases p)
    case (Lit c)
    then show ?thesis using p assms(1) by (auto simp: dollars_begin_tokens_def plain_def)
  next
    case (Var n)
    then have "n \<in> set (findall s)" using p by (simp add: findall_scan set_var_names)
    then obtain w where "env n = Some w" "plain w" using assms(2) by (auto simp: env_plain_alt)
    then show ?thesis using p Var by simp
  qed
qed

lemma process_str_token_free: "findall s = [] \<Longrightarrow> process_str env s = (s, [])"
  by (simp add: process_str_def)

lemma process_value_token_free:
  "referenced v = [] \<Longrightarrow> process_value env v = (v, [])"
proof (induction env v rule: process_value.induct)
  case (1 env s)
  then show ?case by (simp add: referenced_def process_str_token_free)
next
  case (2 env kvs)
  have r: "\<And>k v. (k, v) \<in> set kvs \<Longrightarrow> referenced v = []"
    using "2.prems" unfolding referenced_JObj_eq by force
  have pv: "\<And>kv. kv \<in> set kvs \<Longrightarrow> process_value env (snd kv) = (snd kv, [])"
  proof -
    fix kv assume m: "kv \<in> set kvs"
    obtain k v where kv: "kv = (k, v)" by (cases kv)
    have m': "(k, v) \<in> set kvs" using m kv by simp
    have "process_value env v = (v, [])"
      by (rule "2.IH"(1)[OF m kv[symmetric] r[OF m']])
    then show "process_value env (snd kv) = (snd kv, [])" by (simp add: kv)
  qed
  have a: "map (\<lambda>(k, v). (k, fst (process_value env v))) kvs = map (\<lambda>kv. kv) kvs"
    by (rule map_cong[OF refl]) (simp add: pv case_prod_unfold)
  have b: "map (\<lambda>(k, v). snd (process_value env v)) kvs = map (\<lambda>kv. []) kvs"
    by (rule map_cong[OF refl]) (simp add: pv case_prod_unfold)
  show ?case by (simp only: process_value.simps a b) simp
next
  case (3 env items)
  have r: "\<And>v. v \<in> set items \<Longrightarrow> referenced v = []"
    using "3.prems" unfolding referenced_JArr_eq by force
  have pv: "\<And>v. v \<in> set items \<Longrightarrow> process_value env v = (v, [])"
    using "3.IH" r by simp
  have a: "map (\<lambda>item. fst (process_value env item)) items = map (\<lambda>v. v) items"
    by (rule map_cong[OF refl]) (simp add: pv)
  have b: "map (\<lambda>item. snd (process_value env item)) items = map (\<lambda>v. []) items"
    by (rule map_cong[OF refl]) (simp add: pv)
  show ?case by (simp only: process_value.simps a b) simp
qed simp_all

lemma spec_subst_value_token_free:
  assumes "tokens_isolated v" "values_plain env v"
  shows "referenced (spec_subst_value env v) = []"
  using assms
proof (induction env v rule: spec_subst_value.induct)
  case (1 env s)
  then have "dollars_begin_tokens s" "env_plain env s"
    by (simp_all add: tokens_isolated_def values_plain_alt env_plain_alt referenced_def)
  then show ?case by (simp add: referenced_def findall_plain spec_subst_str_plain)
next
  case (2 env kvs)
  have "\<And>kv. kv \<in> set kvs \<Longrightarrow> referenced (spec_subst_value env (snd kv)) = []"
  proof -
    fix kv assume m: "kv \<in> set kvs"
    obtain k v where kv: "kv = (k, v)" by (cases kv)
    have m': "(k, v) \<in> set kvs" using m kv by simp
    have "referenced (spec_subst_value env v) = []"
      by (rule "2.IH"[OF m kv[symmetric] tokens_isolated_JObj[OF "2.prems"(1) m']
            values_plain_JObj[OF "2.prems"(2) m']])
    then show "referenced (spec_subst_value env (snd kv)) = []" by (simp add: kv)
  qed
  then show ?case
    by (simp add: referenced_JObj_eq case_prod_unfold comp_def)
next
  case (3 env items)
  have "\<And>v. v \<in> set items \<Longrightarrow> referenced (spec_subst_value env v) = []"
    using "3.IH" tokens_isolated_JArr[OF "3.prems"(1)] values_plain_JArr[OF "3.prems"(2)]
    by simp
  then show ?case
    by (simp add: referenced_JArr_eq comp_def)
qed (simp_all add: referenced_def)

lemma env_complete_unresolved: "env_complete env cfg \<longleftrightarrow> unresolved env cfg = {}"
  by (auto simp: env_complete_def unresolved_def filter_empty_conv)

subsection \<open>Lemmas on the environment of a child\<close>

lemma is_placeholder_tok: "is_placeholder (tok name)"
  by (simp add: is_placeholder_def tok_def suffix_def)

lemma placeholder_name_tok: "placeholder_name (tok name) = name"
  by (simp add: placeholder_name_def tok_def butlast_append)

lemma prepare_env_Cons:
  "prepare_env w os_env ((key, v) # rest) env ws =
     prepare_env w os_env rest (env(key \<mapsto> entry_value (fmt w) os_env v)) (ws @ entry_warnings os_env v)"
  by (cases v) (simp_all add: entry_value_def entry_warnings_def warning_for_def Let_def
      split: option.splits)

lemma prepare_env_untouched:
  "key \<notin> fst ` set items \<Longrightarrow> fst (prepare_env w os_env items env ws) key = env key"
proof (induction items arbitrary: env ws)
  case Nil
  then show ?case by simp
next
  case (Cons a items)
  obtain k v where a: "a = (k, v)" by (cases a)
  with Cons.prems have "key \<noteq> k" "key \<notin> fst ` set items" by auto
  then show ?case unfolding a prepare_env_Cons using Cons.IH by simp
qed

lemma prepare_env_warnings:
  "snd (prepare_env w os_env items env ws) = ws @ concat (map (\<lambda>(k, v). entry_warnings os_env v) items)"
proof (induction items arbitrary: env ws)
  case Nil
  then show ?case by simp
next
  case (Cons a items)
  obtain k v where a: "a = (k, v)" by (cases a)
  show ?case unfolding a prepare_env_Cons using Cons.IH by simp
qed

lemma prepare_env_entry:
  assumes "distinct (map fst items)" "(key, v) \<in> set items"
  shows "fst (prepare_env w os_env items env ws) key = Some (entry_value (fmt w) os_env v)"
  using assms
proof (induction items arbitrary: env ws)
  case Nil
  then show ?case by simp
next
  case (Cons a items)
  obtain k u where a: "a = (k, u)" by (cases a)
  have d: "distinct (map fst items)" "k \<notin> fst ` set items" using Cons.prems(1) a by auto
  show ?case
  proof (cases "(key, v) = (k, u)")
    case True
    then show ?thesis unfolding a prepare_env_Cons using d(2) by (simp add: prepare_env_untouched)
  next
    case False
    then have "(key, v) \<in> set items" using Cons.prems(2) a by auto
    then show ?thesis unfolding a prepare_env_Cons using Cons.IH[OF d(1)] by simp
  qed
qed

lemma prepare_env_warned:
  assumes "(key, JStr (tok name)) \<in> set items" "os_env name = None"
  shows "warning_for name \<in> set (snd (prepare_env w os_env items env ws))"
proof -
  have "warning_for name \<in> set (entry_warnings os_env (JStr (tok name)))"
    using assms(2) by (simp add: entry_warnings_def is_placeholder_tok placeholder_name_tok)
  then show ?thesis using assms(1) unfolding prepare_env_warnings by force
qed

lemma monitor_env_Cons:
  "monitor_env os_env ((key, v) # rest) env ws =
     monitor_env os_env rest (env(key \<mapsto> monitor_entry_value os_env v)) (ws @ entry_warnings os_env v)"
  by (cases v) (simp_all add: monitor_entry_value_def entry_warnings_def warning_for_def Let_def
      split: option.splits)

lemma monitor_env_untouched:
  "key \<notin> fst ` set items \<Longrightarrow> fst (monitor_env os_env items env ws) key = env key"
proof (induction items arbitrary: env ws)
  case Nil
  then show ?case by simp
next
  case (Cons a items)
  obtain k v where a: "a = (k, v)" by (cases a)
  with Cons.prems have "key \<noteq> k" "key \<notin> fst ` set items" by auto
  then show ?case unfolding a monitor_env_Cons using Cons.IH by simp
qed

lemma monitor_env_warnings:
  "snd (monitor_env os_env items env ws) = ws @ concat (map (\<lambda>(k, v). entry_warnings os_env v) items)"
proof (induction items arbitrary: env ws)
  case Nil
  then show ?case by simp
next
  case (Cons a items)
  obtain k v where a: "a = (k, v)" by (cases a)
  show ?case unfolding a monitor_env_Cons using Cons.IH by simp
qed

lemma monitor_env_entry:
  assumes "distinct (map fst items)" "(key, v) \<in> set items"
  shows "fst (monitor_env os_env items env ws) key = Some (monitor_entry_value os_env v)"
  using assms
proof (induction items arbitrary: env ws)
  case Nil
  then show ?case by simp
next
  case (Cons a items)
  obtain k u where a: "a = (k, u)" by (cases a)
  have d: "distinct (map fst items)" "k \<notin> fst ` set items" using Cons.prems(1) a by auto
  show ?case
  proof (cases "(key, v) = (k, u)")
    case True
    then show ?thesis unfolding a monitor_env_Cons using d(2) by (simp add: monitor_env_untouched)
  next
    case False
    then have "(key, v) \<in> set items" using Cons.prems(2) a by auto
    then show ?thesis unfolding a monitor_env_Cons using Cons.IH[OF d(1)] by simp
  qed
qed

lemma monitor_env_warned:
  assumes "(key, JStr (tok name)) \<in> set items" "os_env name = None"
  shows "warning_for name \<in> set (snd (monitor_env os_env items env ws))"
proof -
  have "warning_for name \<in> set (entry_warnings os_env (JStr (tok name)))"
    using assms(2) by (simp add: entry_warnings_def is_placeholder_tok placeholder_name_tok)
  then show ?thesis using assms(1) unfolding monitor_env_warnings by force
qed

lemma start_command_server_launch:
  assumes "dict_get kvs ''env'' (JObj []) = JObj items"
    and "truthy (dict_get kvs ''command'' JNull)"
    and "command_line (dict_get kvs ''command'' JNull) (dict_get kvs ''args'' (JArr [])) = Some cmd"
    and "popen w cmd (proxy_child_env w os_env items) = Some n"
  shows "start_command_server w os_env now m server_name (JObj kvs) =
     (None,
      m\<lparr>log := log m @ snd (prepare_env w os_env items os_env []),
        servers := AList.update server_name
           \<lparr>stype = ''command'', sconfig = JObj kvs,
            sprocess = Some (new_process n (proxy_child_env w os_env items)), surl = JNull,
            sheaders = JNull, start_time = now\<rparr> (servers m),
        processes := AList.update server_name n (processes m)\<rparr>)"
  using assms
  by (simp add: start_command_server_def proxy_child_env_def Let_def case_prod_unfold)

lemma start_process_launch:
  assumes "dict_get kvs ''env'' (JObj []) = JObj items"
    and "truthy (dict_get kvs ''command'' JNull)"
    and "command_line (dict_get kvs ''command'' JNull) (dict_get kvs ''args'' (JArr [])) = Some cmd"
    and "spawn t cmd (monitor_child_env os_env items) = Some n"
  shows "fst (start_process t os_env m server_name (JObj kvs)) = True \<and>
         monitored_env (snd (start_process t os_env m server_name (JObj kvs))) server_name
           = Some (monitor_child_env os_env items) \<and>
         mlog (snd (start_process t os_env m server_name (JObj kvs)))
           = mlog m @ snd (monitor_env os_env items (environ_copy os_env) [])"
  using assms
  by (simp add: start_process_def monitor_child_env_def monitored_env_def Let_def
      case_prod_unfold update_conv')

subsection \<open>Lemmas on the command driver and the registry\<close>

lemma update_same: "map_of al k = Some v \<Longrightarrow> AList.update k v al = al"
  by (induction al) (auto split: if_splits)

lemma call_command_tool_exited:
  "exited p \<Longrightarrow> call_command_tool w now server_name tool_name arguments p = (Raises BrokenPipeError, p)"
  by (simp add: call_command_tool_def stdin_write_def Let_def)

lemma list_command_tools_exited:
  "exited p \<Longrightarrow> list_command_tools w now server_name p = (Returns (JArr []), p)"
  by (simp add: list_command_tools_def stdin_write_def Let_def)

lemma call_tool_exited:
  assumes "map_of (servers m) server_name = Some info" "stype info = ''command''"
    "sprocess info = Some p" "exited p"
  shows "call_tool w now m server_name tool_name arguments = (Raises BrokenPipeError, m)"
proof -
  have "info\<lparr>sprocess := Some p\<rparr> = info" using assms(3) by simp
  then show ?thesis
    using assms by (simp add: call_tool_def call_command_tool_exited update_same)
qed

lemma list_tools_exited:
  assumes "map_of (servers m) server_name = Some info" "stype info = ''command''"
    "sprocess info = Some p" "exited p"
  shows "list_tools w now m server_name = (Returns (JArr []), m)"
proof -
  have "info\<lparr>sprocess := Some p\<rparr> = info" using assms(3) by simp
  then show ?thesis
    using assms by (simp add: list_tools_def list_command_tools_exited update_same)
qed

lemma dead_list: "fst (list_tools cat_world 0 dead_echo_manager ''echo'') = Returns (JArr [])"
  by (simp add: list_tools_def dead_echo_manager_def list_command_tools_exited new_process_def)

lemma dead_get: "fst (do_GET cat_world 0 dead_echo_manager ''/echo'')
   = Returns (200, JObj [(''server'', JStr ''echo''), (''tools'', JArr [])])"
  by (simp add: do_GET_def path_server_name_def list_tools_def dead_echo_manager_def
      list_command_tools_exited new_process_def Let_def)

lemma get_server_status_lookup:
  "map_of (get_server_status now m) server_name
     = map_option (server_status now) (map_of (servers m) server_name)"
  by (simp add: get_server_status_def map_of_map)

lemma secret_status:
  "fst (do_GET cat_world 10 (secret_manager secret) ''/status'') =
     Returns (200, JObj [(''echo'', JObj [(''type'', JStr ''command''), (''running'', JBool True),
        (''uptime'', JFloat 10), (''pid'', JInt 4242),
        (''config'', JObj [(''command'', JStr ''cat''), (''env'', JObj [(''API_KEY'', JStr secret)])])])])"
  by (simp add: do_GET_def get_server_status_def server_status_def secret_manager_def
      secret_server_def start_command_server_def dict_get_def command_line_def cat_world_def
      manager0_def new_process_def Let_def case_prod_unfold)

lemma start_server_keeps_config:
  assumes "map_of (servers m0) server_name = None"
    and "map_of (servers (snd (start_server w os_env t0 m0 server_name server_config))) server_name
           = Some server_info"
  shows "sconfig server_info = server_config"
proof (cases server_config)
  case (JObj kvs)
  show ?thesis
    using assms unfolding JObj
    by (auto simp: start_server_def start_command_server_def start_remote_server_def Let_def
        case_prod_unfold update_conv' split: if_splits option.splits json.splits)
qed (use assms in \<open>simp_all add: start_server_def\<close>)









subsection \<open>Lemmas on callers that share a child\<close>







lemma cat_overlap:
  "snd (run_schedule (cat 4242) [''first'', ''second''] [0, 1, 1, 0]
          (new_process 4242 Map.empty, [Idle, Idle])) = [Got ''second'', Got ''first'']"
  by (simp add: run_schedule_def caller_step_def stdin_write_def stdout_readline_def
      new_process_def cat_def)

subsection \<open>Lemmas on the supervisor\<close>

lemma counts_le_refl: "counts_le m m"
  by (simp add: counts_le_def)

lemma counts_le_trans: "counts_le a b \<Longrightarrow> counts_le b c \<Longrightarrow> counts_le a c"
  unfolding counts_le_def by (meson order_trans)

lemma map_of_in_keys: "n \<in> fst ` set al \<Longrightarrow> \<exists>c. map_of al n = Some c"
  by (metis domD dom_map_of_conv_image_fst)

lemma start_process_facts:
  assumes "start_process t os m server_name server_config = (ok, m')"
  shows "max_restarts m' = max_restarts m" "mon_config m' = mon_config m" "running m' = running m"
    "counts_le m m'"
    "popen_calls m' = popen_calls m \<or> popen_calls m' = popen_calls m @ [server_name]"
proof -
  have all: "max_restarts m' = max_restarts m \<and> mon_config m' = mon_config m \<and> running m' = running m \<and>
    (restart_counts m' = restart_counts m \<or>
       (server_name \<notin> fst ` set (restart_counts m) \<and>
        restart_counts m' = AList.update server_name 0 (restart_counts m))) \<and>
    (popen_calls m' = popen_calls m \<or> popen_calls m' = popen_calls m @ [server_name])"
    using assms
    by (auto simp: start_process_def Let_def case_prod_unfold
        split: json.splits if_splits option.splits)
  then show "max_restarts m' = max_restarts m" "mon_config m' = mon_config m" "running m' = running m"
    "popen_calls m' = popen_calls m \<or> popen_calls m' = popen_calls m @ [server_name]"
    by auto
  from all have "restart_counts m' = restart_counts m \<or>
       (server_name \<notin> fst ` set (restart_counts m) \<and>
        restart_counts m' = AList.update server_name 0 (restart_counts m))" by simp
  then show "counts_le m m'"
  proof
    assume "restart_counts m' = restart_counts m"
    then show ?thesis by (simp add: counts_le_def)
  next
    assume a: "server_name \<notin> fst ` set (restart_counts m) \<and>
        restart_counts m' = AList.update server_name 0 (restart_counts m)"
    then have "map_of (restart_counts m) server_name = None"
      by (simp add: map_of_eq_None_iff)
    then show ?thesis using a
      by (auto simp: counts_le_def update_conv')
  qed
qed

lemma given_up_mono:
  "counts_le m m' \<Longrightarrow> max_restarts m' = max_restarts m \<Longrightarrow> given_up m n \<Longrightarrow> given_up m' n"
  unfolding counts_le_def given_up_def
  by (fastforce split: option.splits)

lemma supervised_refl: "supervised m m"
  by (simp add: supervised_def counts_le_refl)

lemma supervised_trans: "supervised a b \<Longrightarrow> supervised b c \<Longrightarrow> supervised a c"
  unfolding supervised_def using counts_le_trans by auto

lemma sup_step_supervised:
  assumes "sup_step who m m'"
  shows "supervised m m'"
proof -
  have "\<And>n. given_up m n \<Longrightarrow> launches m' n = launches m n"
    using assms by (auto simp: sup_step_def launches_def)
  then show ?thesis
    using assms given_up_mono[of m m'] by (auto simp: supervised_def sup_step_def)
qed

lemma counts_le_bump:
  assumes "map_of (restart_counts m) n = Some c"
    and "restart_counts m' = AList.update n (c + 1) (restart_counts m)"
  shows "counts_le m m'"
  using assms by (auto simp: counts_le_def update_conv')

lemma monitor_entry_step:
  assumes "monitor_entry t os m (n, info) = (e, m')"
  shows "sup_step n m m'"
proof (cases "polled_exit t (pi_pid info) \<and> n \<in> fst ` set (mon_processes m)")
  case False
  then have "m' = m" using assms by (auto simp: monitor_entry_def split: if_splits)
  then show ?thesis by (simp add: sup_step_def counts_le_refl)
next
  case True
  define m1 where "m1 = m\<lparr>mon_processes := AList.delete n (mon_processes m)\<rparr>"
  have m1: "max_restarts m1 = max_restarts m" "mon_config m1 = mon_config m"
    "running m1 = running m" "restart_counts m1 = restart_counts m"
    "popen_calls m1 = popen_calls m"
    by (simp_all add: m1_def)
  show ?thesis
  proof (cases "map_of (restart_counts m) n")
    case None
    then have "m' = m1" using assms True by (simp add: monitor_entry_def m1_def)
    then show ?thesis using m1 by (simp add: sup_step_def counts_le_def)
  next
    case (Some c)
    show ?thesis
    proof (cases "c < max_restarts m")
      case False
      then have "m' = m1\<lparr>mlog := mlog m1 @
                           [''Process '' @ n @ '' has been restarted ''
                            @ str_int c @ '' times, giving up'']\<rparr>"
        using assms True Some by (simp add: monitor_entry_def m1_def)
      then show ?thesis using m1 by (simp add: sup_step_def counts_le_def)
    next
      case lt: True
      define m2 where "m2 = m1\<lparr>restart_counts := AList.update n (c + 1) (restart_counts m1)\<rparr>"
      have m2: "max_restarts m2 = max_restarts m" "mon_config m2 = mon_config m"
        "running m2 = running m" "popen_calls m2 = popen_calls m"
        "restart_counts m2 = AList.update n (c + 1) (restart_counts m)"
        by (simp_all add: m2_def m1)
      have le2: "counts_le m m2" by (rule counts_le_bump[OF Some m2(5)])
      have ng: "\<not> given_up m n" using Some lt by (simp add: given_up_def)
      have unf: "monitor_entry t os m (n, info) =
          (case lookup_server_config (mon_config m2) n of
             Inl e \<Rightarrow> (Some e, m2)
           | Inr server_config \<Rightarrow>
               if truthy server_config
               then (None, snd (start_process t os m2 n server_config))
               else (None, m2\<lparr>mlog := mlog m2 @ [''Server configuration not found for '' @ n]\<rparr>))"
        unfolding m2_def m1_def using True Some lt
        by (simp add: monitor_entry_def Let_def split: sum.splits)
      show ?thesis
      proof (cases "lookup_server_config (mon_config m2) n")
        case (Inl err)
        then have "m' = m2" using assms unf by simp
        then show ?thesis using m2 le2 by (simp add: sup_step_def)
      next
        case (Inr server_config)
        show ?thesis
        proof (cases "truthy server_config")
          case False
          then have "m' = m2\<lparr>mlog := mlog m2 @ [''Server configuration not found for '' @ n]\<rparr>"
            using assms unf Inr by simp
          then have "restart_counts m' = restart_counts m2" "max_restarts m' = max_restarts m"
            "mon_config m' = mon_config m" "running m' = running m" "popen_calls m' = popen_calls m"
            using m2 by simp_all
          then show ?thesis using le2 by (simp add: sup_step_def counts_le_def)
        next
          case True
          then have m': "m' = snd (start_process t os m2 n server_config)"
            using assms unf Inr by simp
          obtain ok where sp: "start_process t os m2 n server_config = (ok, m')"
            using m' by (cases "start_process t os m2 n server_config") simp
          note f = start_process_facts[OF sp]
          have "counts_le m m'" using le2 f(4) by (rule counts_le_trans)
          then show ?thesis using f(1,2,3,5) m2 ng by (auto simp: sup_step_def)
        qed
      qed
    qed
  qed
qed

lemma monitor_sweep_supervised:
  "monitor_sweep t os entries m = (e, m') \<Longrightarrow> supervised m m'"
proof (induction entries arbitrary: m)
  case Nil
  then show ?case by (simp add: supervised_refl)
next
  case (Cons entry entries)
  obtain n info where entry: "entry = (n, info)" by (cases entry)
  obtain e1 m1 where me: "monitor_entry t os m (n, info) = (e1, m1)"
    by (cases "monitor_entry t os m (n, info)")
  have s1: "supervised m m1" by (rule sup_step_supervised[OF monitor_entry_step[OF me]])
  show ?case
  proof (cases e1)
    case None
    then have "monitor_sweep t os entries m1 = (e, m')"
      using Cons.prems entry me by simp
    then have "supervised m1 m'" by (rule Cons.IH)
    with s1 show ?thesis by (rule supervised_trans)
  next
    case (Some err)
    then have "m' = m1" using Cons.prems entry me by simp
    with s1 show ?thesis by simp
  qed
qed

lemma monitor_processes_supervised:
  "monitor_processes os ticks m = (e, m') \<Longrightarrow> supervised m m'"
proof (induction ticks arbitrary: m)
  case Nil
  then show ?case by (simp add: supervised_refl)
next
  case (Cons t ticks)
  show ?case
  proof (cases "running m")
    case False
    then show ?thesis using Cons.prems by (simp add: supervised_refl)
  next
    case True
    obtain e1 m1 where sw: "monitor_sweep t os (mon_processes m) m = (e1, m1)"
      by (cases "monitor_sweep t os (mon_processes m) m")
    have s1: "supervised m m1" by (rule monitor_sweep_supervised[OF sw])
    show ?thesis
    proof (cases e1)
      case None
      then have "monitor_processes os ticks m1 = (e, m')"
        using Cons.prems True sw by simp
      then have "supervised m1 m'" by (rule Cons.IH)
      with s1 show ?thesis by (rule supervised_trans)
    next
      case (Some err)
      then have "m' = m1" using Cons.prems True sw by simp
      with s1 show ?thesis by simp
    qed
  qed
qed

subsection \<open>Lemmas on the health aggregator\<close>






section \<open>The claims\<close>

subsection \<open>C1: callers that share one child\<close>




subsection \<open>C2: the \<open>is_healthy\<close> flag after a probe sweep\<close>




subsection \<open>C3: calls to a child that has exited\<close>

text \<open>
  Claim C3, as the code has it. For a command upstream whose child has exited,
  \<open>call_tool\<close> raises at once (the write to the broken pipe raises \<open>BrokenPipeError\<close>, which
  the HTTP handler reports with status 500), and \<open>list_tools\<close> returns the empty list: its
  \<open>except\<close> clause swallows the exception. Neither call waits, and the manager is left as
  it was.
\<close>

theorem exited_child_call_and_list:
  assumes "map_of (servers m) server_name = Some server_info"
    and "stype server_info = ''command''"
    and "sprocess server_info = Some p"
    and "exited p"
  shows "call_tool w now m server_name tool_name arguments = (Raises BrokenPipeError, m) \<and>
         list_tools w now m server_name = (Returns (JArr []), m)"
  using call_tool_exited[OF assms] list_tools_exited[OF assms] by simp

theorem exited_child_call_and_list_witness:
  "call_tool cat_world 0 dead_echo_manager ''echo'' (JStr ''noop'') (JObj [])
     = (Raises BrokenPipeError, dead_echo_manager) \<and>
   list_tools cat_world 0 dead_echo_manager ''echo'' = (Returns (JArr []), dead_echo_manager)"
proof -
  have a: "map_of (servers dead_echo_manager) ''echo'' =
     Some \<lparr>stype = ''command'',
            sconfig = JObj [(''command'', JStr ''cat''), (''disabled'', JBool False)],
            sprocess = Some ((new_process 4242 Map.empty)\<lparr>exited := True\<rparr>),
            surl = JNull, sheaders = JNull, start_time = 0\<rparr>"
    by (simp add: dead_echo_manager_def)
  have b: "exited ((new_process 4242 Map.empty)\<lparr>exited := True\<rparr>)" by simp
  show ?thesis
    using exited_child_call_and_list[OF a _ _ b, of cat_world 0 "JStr ''noop''" "JObj []"]
    by simp
qed

text \<open>
  The claim as stated fails for \<open>listTools\<close>: with the child of \<open>echo\<close> exited,
  \<open>list_tools\<close> returns the empty list and \<open>GET /echo\<close> answers 200 with no tools, where
  the claim has the request fail; \<open>POST /echo\<close> answers 500 with the text of the
  exception.
\<close>

theorem exited_child_call_and_list_counterexample:
  "fst (list_tools cat_world 0 dead_echo_manager ''echo'') = Returns (JArr []) \<and>
   fst (do_GET cat_world 0 dead_echo_manager ''/echo'')
     = Returns (200, JObj [(''server'', JStr ''echo''), (''tools'', JArr [])]) \<and>
   fst (do_POST cat_world 0 dead_echo_manager ''/echo'' post_body)
     = Returns (500, JObj [(''error'', JObj [(''code'', JInt 500),
          (''message'', JStr ''Error calling tool: [Errno 32] Broken pipe'')])])"
proof -
  have "fst (do_POST cat_world 0 dead_echo_manager ''/echo'' post_body)
     = Returns (500, JObj [(''error'', JObj [(''code'', JInt 500),
          (''message'', JStr ''Error calling tool: [Errno 32] Broken pipe'')])])"
    by (simp add: do_POST_def path_server_name_def call_tool_def dead_echo_manager_def
        call_command_tool_exited new_process_def Let_def cat_world_def noop_call_def dict_get_def
        send_error_response_def error_text_def)
  then show ?thesis using dead_list dead_get by simp
qed

subsection \<open>C4: restart counts and given-up upstreams\<close>

text \<open>
  Claim C4. For every run of the monitor loop (any number of passes, any exits and any
  results of \<open>Popen\<close>), from any state of the supervisor: \<open>max_restarts\<close> is unchanged,
  every restart count is at least what it was, and an upstream whose restart count had
  reached \<open>max_restarts\<close> is still given up afterwards and no \<open>Popen\<close> call was made for
  it. The state returned is the state reached, also when an exception ends the thread.
\<close>

theorem restart_count_monotone_and_given_up_final:
  assumes "monitor_processes os_environ ticks m = (e, m')"
  shows "max_restarts m' = max_restarts m \<and>
         (\<forall>n c. map_of (restart_counts m) n = Some c \<longrightarrow>
            (\<exists>c'. map_of (restart_counts m') n = Some c' \<and> c \<le> c')) \<and>
         (\<forall>n. given_up m n \<longrightarrow> given_up m' n \<and> launches m' n = launches m n)"
  using monitor_processes_supervised[OF assms]
  by (simp add: supervised_def counts_le_def)

theorem restart_count_monotone_and_given_up_final_witness:
  "map_of (restart_counts monitor1) ''test-server'' = Some 1 \<and>
   given_up monitor1 ''test-server'' \<and>
   launches monitor1 ''test-server'' = 2 \<and>
   given_up (snd (monitor_processes Map.empty [tick_exited 3, tick_exited 4] monitor1)) ''test-server'' \<and>
   launches (snd (monitor_processes Map.empty [tick_exited 3, tick_exited 4] monitor1)) ''test-server'' = 2 \<and>
   map_of (restart_counts (snd (monitor_processes Map.empty [tick_exited 3, tick_exited 4] monitor1)))
     ''test-server'' = Some 1"
proof -
  have a: "map_of (restart_counts monitor1) ''test-server'' = Some 1" by code_simp
  have b: "given_up monitor1 ''test-server''" by code_simp
  have c: "launches monitor1 ''test-server'' = 2" by code_simp
  have d: "map_of (restart_counts (snd (monitor_processes Map.empty [tick_exited 3, tick_exited 4] monitor1)))
     ''test-server'' = Some 1" by code_simp
  have run: "monitor_processes Map.empty [tick_exited 3, tick_exited 4] monitor1
    = (fst (monitor_processes Map.empty [tick_exited 3, tick_exited 4] monitor1),
       snd (monitor_processes Map.empty [tick_exited 3, tick_exited 4] monitor1))"
    by simp
  show ?thesis
    using restart_count_monotone_and_given_up_final[OF run] a b c d by simp
qed

subsection \<open>C5: the first scenario\<close>




subsection \<open>C6: substitution of tokens and the error for unset names\<close>




subsection \<open>C7: the environment of a launched child\<close>

text \<open>
  Claim C7. For a server object whose \<open>env\<close> member is an object with the entries
  \<open>items\<close>, whose command line is made of strings, and for which \<open>Popen\<close> succeeds, both
  in the proxy (\<open>_start_command_server\<close>) and in the supervisor (\<open>_start_process\<close>): the
  launch succeeds and the child is registered with the composed environment; a name
  that is no key of \<open>items\<close> has the value of the process environment; a key of \<open>items\<close>
  has the value of its entry; an entry of the exact form \<open>${NAME}\<close> gives the value of
  \<open>NAME\<close> when \<open>NAME\<close> is set, and the literal text \<open>${NAME}\<close> together with a logged
  warning when it is not.
\<close>

theorem child_environment:
  assumes "dict_get kvs ''env'' (JObj []) = JObj items"
    and "distinct (map fst items)"
    and "truthy (dict_get kvs ''command'' JNull)"
    and "command_line (dict_get kvs ''command'' JNull) (dict_get kvs ''args'' (JArr [])) = Some cmd"
    and "popen w cmd (proxy_child_env w os_environ items) = Some n"
    and "spawn t cmd (monitor_child_env os_environ items) = Some n'"
  shows
    "fst (start_command_server w os_environ now m server_name (JObj kvs)) = None \<and>
     server_process (snd (start_command_server w os_environ now m server_name (JObj kvs))) server_name
       = Some (new_process n (proxy_child_env w os_environ items)) \<and>
     fst (start_process t os_environ mon server_name (JObj kvs)) = True \<and>
     monitored_env (snd (start_process t os_environ mon server_name (JObj kvs))) server_name
       = Some (monitor_child_env os_environ items) \<and>
     (\<forall>key. key \<notin> fst ` set items \<longrightarrow>
        proxy_child_env w os_environ items key = os_environ key \<and>
        monitor_child_env os_environ items key = map_option JStr (os_environ key)) \<and>
     (\<forall>key v. (key, JStr v) \<in> set items \<and> \<not> is_placeholder v \<longrightarrow>
        proxy_child_env w os_environ items key = Some v \<and>
        monitor_child_env os_environ items key = Some (JStr v)) \<and>
     (\<forall>key name x. (key, JStr (tok name)) \<in> set items \<and> os_environ name = Some x \<longrightarrow>
        proxy_child_env w os_environ items key = Some x \<and>
        monitor_child_env os_environ items key = Some (JStr x)) \<and>
     (\<forall>key name. (key, JStr (tok name)) \<in> set items \<and> os_environ name = None \<longrightarrow>
        proxy_child_env w os_environ items key = Some (tok name) \<and>
        monitor_child_env os_environ items key = Some (JStr (tok name)) \<and>
        warning_for name \<in> set (log (snd (start_command_server w os_environ now m server_name (JObj kvs)))) \<and>
        warning_for name \<in> set (mlog (snd (start_process t os_environ mon server_name (JObj kvs)))))"
proof -
  note sc = start_command_server_launch[OF assms(1,3,4,5), of now m server_name]
  note sp = start_process_launch[OF assms(1,3,4,6), of mon server_name]
  have 1: "fst (start_command_server w os_environ now m server_name (JObj kvs)) = None"
    by (simp add: sc)
  have 2: "server_process (snd (start_command_server w os_environ now m server_name (JObj kvs))) server_name
       = Some (new_process n (proxy_child_env w os_environ items))"
    by (simp add: sc server_process_def update_conv')
  have 3: "\<And>key. key \<notin> fst ` set items \<Longrightarrow>
        proxy_child_env w os_environ items key = os_environ key \<and>
        monitor_child_env os_environ items key = map_option JStr (os_environ key)"
    by (simp add: proxy_child_env_def monitor_child_env_def prepare_env_untouched
        monitor_env_untouched environ_copy_def)
  have 4: "\<And>key v. (key, JStr v) \<in> set items \<Longrightarrow> \<not> is_placeholder v \<Longrightarrow>
        proxy_child_env w os_environ items key = Some v \<and>
        monitor_child_env os_environ items key = Some (JStr v)"
    using assms(2)
    by (simp add: proxy_child_env_def monitor_child_env_def prepare_env_entry monitor_env_entry
        entry_value_def monitor_entry_value_def)
  have 5: "\<And>key name x. (key, JStr (tok name)) \<in> set items \<Longrightarrow> os_environ name = Some x \<Longrightarrow>
        proxy_child_env w os_environ items key = Some x \<and>
        monitor_child_env os_environ items key = Some (JStr x)"
    using assms(2)
    by (simp add: proxy_child_env_def monitor_child_env_def prepare_env_entry monitor_env_entry
        entry_value_def monitor_entry_value_def is_placeholder_tok placeholder_name_tok)
  have 6: "\<And>key name. (key, JStr (tok name)) \<in> set items \<Longrightarrow> os_environ name = None \<Longrightarrow>
        proxy_child_env w os_environ items key = Some (tok name) \<and>
        monitor_child_env os_environ items key = Some (JStr (tok name))"
    using assms(2)
    by (simp add: proxy_child_env_def monitor_child_env_def prepare_env_entry monitor_env_entry
        entry_value_def monitor_entry_value_def is_placeholder_tok placeholder_name_tok)
  have 7: "\<And>key name. (key, JStr (tok name)) \<in> set items \<Longrightarrow> os_environ name = None \<Longrightarrow>
        warning_for name \<in> set (log (snd (start_command_server w os_environ now m server_name (JObj kvs)))) \<and>
        warning_for name \<in> set (mlog (snd (start_process t os_environ mon server_name (JObj kvs))))"
    using prepare_env_warned[of _ _ items os_environ w os_environ "[]"]
      monitor_env_warned[of _ _ items os_environ "environ_copy os_environ" "[]"]
    by (simp add: sc sp)
  show ?thesis using 1 2 sp 3 4 5 6 7 by blast
qed

theorem child_environment_witness:
  "proxy_child_env cat_world tk_set tk_items ''API_KEY'' = Some ''secret'' \<and>
   monitor_child_env tk_set tk_items ''API_KEY'' = Some (JStr ''secret'') \<and>
   proxy_child_env cat_world Map.empty tk_items ''API_KEY'' = Some ''${TK}'' \<and>
   monitor_child_env Map.empty tk_items ''API_KEY'' = Some (JStr ''${TK}'') \<and>
   fst (start_command_server cat_world Map.empty 0 (manager0 JNull) ''echo'' (JObj tk_server)) = None \<and>
   server_process (snd (start_command_server cat_world Map.empty 0 (manager0 JNull) ''echo'' (JObj tk_server)))
     ''echo'' = Some (new_process 4242 (proxy_child_env cat_world Map.empty tk_items)) \<and>
   ''Environment variable not found: TK''
     \<in> set (log (snd (start_command_server cat_world Map.empty 0 (manager0 JNull) ''echo'' (JObj tk_server)))) \<and>
   fst (start_process (tick_exited 1) Map.empty monitor0 ''echo'' (JObj tk_server)) = True \<and>
   ''Environment variable not found: TK''
     \<in> set (mlog (snd (start_process (tick_exited 1) Map.empty monitor0 ''echo'' (JObj tk_server))))"
proof -
  have e: "dict_get tk_server ''env'' (JObj []) = JObj tk_items"
    by (simp add: dict_get_def tk_server_def)
  have d: "distinct (map fst tk_items)" by (simp add: tk_items_def)
  have c: "truthy (dict_get tk_server ''command'' JNull)"
    by (simp add: dict_get_def tk_server_def)
  have l: "command_line (dict_get tk_server ''command'' JNull) (dict_get tk_server ''args'' (JArr []))
           = Some [''cat'']"
    by (simp add: dict_get_def tk_server_def command_line_def)
  have p: "\<And>env. popen cat_world [''cat''] env = Some 4242" by (simp add: cat_world_def)
  have s: "\<And>env. spawn (tick_exited 1) [''cat''] env = Some 1" by (simp add: tick_exited_def)
  have i: "(''API_KEY'', JStr (tok ''TK'')) \<in> set tk_items" by (simp add: tk_items_def tok_def)
  have t: "tok ''TK'' = ''${TK}''" by (simp add: tok_def)
  have w: "warning_for ''TK'' = ''Environment variable not found: TK''" by (simp add: warning_for_def)
  have ts: "tk_set ''TK'' = Some ''secret''" by (simp add: tk_set_def)
  note A = child_environment[OF e d c l p s, of tk_set 0 "manager0 JNull" "''echo''" monitor0]
  note B = child_environment[OF e d c l p s, of Map.empty 0 "manager0 JNull" "''echo''" monitor0]
  from A i ts have a1: "proxy_child_env cat_world tk_set tk_items ''API_KEY'' = Some ''secret'' \<and>
      monitor_child_env tk_set tk_items ''API_KEY'' = Some (JStr ''secret'')"
    by blast
  from B i have b1: "proxy_child_env cat_world Map.empty tk_items ''API_KEY'' = Some (tok ''TK'') \<and>
      monitor_child_env Map.empty tk_items ''API_KEY'' = Some (JStr (tok ''TK'')) \<and>
      warning_for ''TK''
        \<in> set (log (snd (start_command_server cat_world Map.empty 0 (manager0 JNull) ''echo'' (JObj tk_server)))) \<and>
      warning_for ''TK''
        \<in> set (mlog (snd (start_process (tick_exited 1) Map.empty monitor0 ''echo'' (JObj tk_server))))"
    by blast
  from B have b2: "fst (start_command_server cat_world Map.empty 0 (manager0 JNull) ''echo'' (JObj tk_server)) = None \<and>
      server_process (snd (start_command_server cat_world Map.empty 0 (manager0 JNull) ''echo'' (JObj tk_server)))
        ''echo'' = Some (new_process 4242 (proxy_child_env cat_world Map.empty tk_items)) \<and>
      fst (start_process (tick_exited 1) Map.empty monitor0 ''echo'' (JObj tk_server)) = True"
    by blast
  show ?thesis using a1 b1 b2 unfolding t w by simp
qed

subsection \<open>C8: the snapshot of \<open>GET /status\<close>\<close>

text \<open>
  Claim C8, as the code has it. \<open>GET /status\<close> on the proxy answers 200 with one object
  per registered upstream: the transport tag, the running flag, the uptime, the pid (if
  any), and under \<open>config\<close> the configured spec of the upstream exactly as it was
  registered, its \<open>env\<close> and \<open>headers\<close> members included; and an upstream that
  \<open>_start_server\<close> registers is registered with the spec it was given. Nothing is redacted.
\<close>

theorem status_reports_config_verbatim:
  "do_GET w now m ''/status'' = (Returns (200, JObj (get_server_status now m)), m) \<and>
   (\<forall>server_name server_info. map_of (servers m) server_name = Some server_info \<longrightarrow>
      map_of (get_server_status now m) server_name =
        Some (JObj [(''type'', JStr (stype server_info)),
              (''running'',
                 if stype server_info = ''command''
                 then (case sprocess server_info of None \<Rightarrow> JNull | Some p \<Rightarrow> JBool (\<not> exited p))
                 else JBool True),
              (''uptime'', JFloat (now - start_time server_info)),
              (''pid'',
                 if stype server_info = ''command''
                 then (case sprocess server_info of None \<Rightarrow> JNull | Some p \<Rightarrow> JInt (int (pid p)))
                 else JNull),
              (''config'', sconfig server_info)])) \<and>
   (\<forall>server_name server_config server_info os_environ t0 m0.
      map_of (servers m0) server_name = None \<and>
      map_of (servers (snd (start_server w os_environ t0 m0 server_name server_config))) server_name
        = Some server_info \<longrightarrow>
      sconfig server_info = server_config)"
  using start_server_keeps_config
  by (auto simp: do_GET_def get_server_status_lookup server_status_def Let_def)

theorem status_reports_config_verbatim_witness:
  "map_of (servers (secret_manager ''s3cr3t'')) ''echo'' =
     Some \<lparr>stype = ''command'', sconfig = secret_server ''s3cr3t'',
            sprocess = Some (new_process 4242 [''API_KEY'' \<mapsto> ''s3cr3t'']), surl = JNull,
            sheaders = JNull,
            start_time = 0\<rparr> \<and>
   map_of (get_server_status 10 (secret_manager ''s3cr3t'')) ''echo'' =
     Some (JObj [(''type'', JStr ''command''), (''running'', JBool True), (''uptime'', JFloat 10),
                 (''pid'', JInt 4242),
                 (''config'', JObj [(''command'', JStr ''cat''),
                                    (''env'', JObj [(''API_KEY'', JStr ''s3cr3t'')])])])"
proof -
  have a: "map_of (servers (secret_manager ''s3cr3t'')) ''echo'' =
     Some \<lparr>stype = ''command'', sconfig = secret_server ''s3cr3t'',
            sprocess = Some (new_process 4242 [''API_KEY'' \<mapsto> ''s3cr3t'']), surl = JNull,
            sheaders = JNull,
            start_time = 0\<rparr>"
    by (simp add: secret_manager_def secret_server_def start_command_server_def dict_get_def
        command_line_def cat_world_def manager0_def Let_def case_prod_unfold)
  from status_reports_config_verbatim[of cat_world 10 "secret_manager ''s3cr3t''"] a
  have "map_of (get_server_status 10 (secret_manager ''s3cr3t'')) ''echo'' =
        Some (JObj [(''type'', JStr ''command''), (''running'', JBool True),
                    (''uptime'', JFloat (10 - 0)), (''pid'', JInt (int 4242)),
                    (''config'', secret_server ''s3cr3t'')])"
    by (simp add: new_process_def)
  then show ?thesis using a by (simp add: secret_server_def)
qed

text \<open>
  The claim as stated fails: two runs that differ only in the value of \<open>API_KEY\<close> in the
  \<open>env\<close> map of a command upstream answer \<open>GET /status\<close> with different bodies, and the
  value stands in the body.
\<close>

theorem status_reports_config_verbatim_counterexample:
  "fst (do_GET cat_world 10 (secret_manager ''alpha'') ''/status'') =
     Returns (200, JObj [(''echo'', JObj [(''type'', JStr ''command''), (''running'', JBool True),
        (''uptime'', JFloat 10), (''pid'', JInt 4242),
        (''config'', JObj [(''command'', JStr ''cat''), (''env'', JObj [(''API_KEY'', JStr ''alpha'')])])])]) \<and>
   fst (do_GET cat_world 10 (secret_manager ''bravo'') ''/status'') =
     Returns (200, JObj [(''echo'', JObj [(''type'', JStr ''command''), (''running'', JBool True),
        (''uptime'', JFloat 10), (''pid'', JInt 4242),
        (''config'', JObj [(''command'', JStr ''cat''), (''env'', JObj [(''API_KEY'', JStr ''bravo'')])])])]) \<and>
   fst (do_GET cat_world 10 (secret_manager ''alpha'') ''/status'')
     \<noteq> fst (do_GET cat_world 10 (secret_manager ''bravo'') ''/status'')"
  by (simp add: secret_status)

subsection \<open>C9: applying the substitution twice\<close>

text \<open>
  Claim C9, as the code has it. For an env-complete document the substitution returns a
  document; applying the substitution to that output returns it unchanged whenever the
  output holds no \<open>${NAME}\<close> token; and the output holds none when every dollar sign of
  the input begins a token and no referenced value contains a dollar sign.
\<close>

theorem substitute_env_vars_idempotent:
  assumes "env_complete env cfg"
  shows "\<exists>out. fst (substitute_env_vars env self (Some cfg)) = Inr out \<and>
           (referenced out = [] \<longrightarrow>
              fst (substitute_env_vars env self' (Some out)) = Inr out) \<and>
           (tokens_isolated cfg \<and> values_plain env cfg \<longrightarrow> referenced out = [])"
proof -
  let ?out = "fst (process_value env cfg)"
  have 1: "fst (substitute_env_vars env self (Some cfg)) = Inr ?out"
    using assms by (simp add: substitute_env_vars_result env_complete_unresolved)
  have 2: "referenced ?out = [] \<Longrightarrow> fst (substitute_env_vars env self' (Some ?out)) = Inr ?out"
    by (simp add: substitute_env_vars_result unresolved_def process_value_token_free)
  have 3: "tokens_isolated cfg \<and> values_plain env cfg \<Longrightarrow> referenced ?out = []"
    by (simp add: process_value_spec spec_subst_value_token_free)
  show ?thesis using 1 2 3 by blast
qed

theorem substitute_env_vars_idempotent_witness:
  "env_complete env_test cfg_test \<and>
   tokens_isolated cfg_test \<and> values_plain env_test cfg_test \<and>
   fst (substitute_env_vars env_test handler0 (Some cfg_test)) = Inr cfg_test_out \<and>
   referenced cfg_test_out = [] \<and>
   fst (substitute_env_vars env_test handler0 (Some cfg_test_out)) = Inr cfg_test_out"
proof -
  have a: "env_complete env_test cfg_test" by code_simp
  have b: "tokens_isolated cfg_test" by code_simp
  have c: "values_plain env_test cfg_test" by code_simp
  have d: "fst (substitute_env_vars env_test handler0 (Some cfg_test)) = Inr cfg_test_out"
    by code_simp
  show ?thesis
    using substitute_env_vars_idempotent[OF a, of handler0 handler0] a b c d
    by auto
qed

text \<open>
  The claim as stated fails for an env-complete document when a value is itself the text
  of a token: with \<open>A\<close> set to \<open>${B}\<close> and \<open>B\<close> set to \<open>x\<close>, the first pass turns
  \<open>${A}\<close> into \<open>${B}\<close> and the second pass turns that output into \<open>x\<close>.
\<close>

theorem substitute_env_vars_idempotent_counterexample:
  "env_complete env_ab (JObj [(''a'', JStr ''${A}'')]) \<and>
   fst (substitute_env_vars env_ab handler0 (Some (JObj [(''a'', JStr ''${A}'')])))
     = Inr (JObj [(''a'', JStr ''${B}'')]) \<and>
   fst (substitute_env_vars env_ab handler0 (Some (JObj [(''a'', JStr ''${B}'')])))
     = Inr (JObj [(''a'', JStr ''x'')])"
  by code_simp

subsection \<open>C10: the handler and its stored configuration after the call\<close>


end
